theory Spec2Isabelle
  imports Main "HOL-Library.Word"
begin

section \<open>Common values\<close>

text \<open>
  The status codes are C ints; nothing is ever computed from them, so they are \<open>int\<close>.
  The errno numbers are those of Linux (errno-base.h).
\<close>

definition ENOENT :: int where "ENOENT = 2"
definition EAGAIN :: int where "EAGAIN = 11"
definition ENODEV :: int where "ENODEV = 19"
definition EINVAL :: int where "EINVAL = 22"

text \<open>
  Objects that the C++ code shares through raw pointers (planes, CRTCs, encoders) are
  addressed by a reference; a store maps each reference to the object it points to.
  A pointer that may be null is an \<open>option\<close>.
\<close>

type_synonym plane_ref = nat
type_synonym crtc_ref = nat
type_synonym enc_ref = nat

section \<open>Layers and planes (drm/DrmPlane.cpp)\<close>

text \<open>
  Modelled from the spec: the header that declares \<open>DrmHwcLayer\<close>, \<open>DrmHwcTransform\<close> and
  \<open>DrmHwcBlending\<close> (drmhwcomposer.h) is not among the sources. The spec gives a layer a
  transform, a blend mode, a plane alpha and a pixel format, names the identity
  transform and the blend modes none, pre-multiplied and coverage, and calls the
  largest alpha value fully opaque. \<open>ToDrmRotation\<close> tests the bits of a transform with
  \<open>&\<close>, so a transform is a bit mask, kept in a 32-bit word; the identity transform is
  the mask with no bit set. The alpha is compared with \<open>0xffff\<close>: 16 bits.
\<close>

type_synonym DrmHwcTransform = "32 word"

definition kIdentity :: DrmHwcTransform where "kIdentity = 0"

datatype DrmHwcBlending = kNone | kPreMult | kCoverage

text \<open>The fields of \<open>DrmHwcLayer\<close> that \<open>DrmPlane::IsValidForLayer\<close> reads.\<close>

record DrmHwcLayer =
  transform :: DrmHwcTransform
  blending :: DrmHwcBlending
  alpha :: "16 word"
  buffer_info_format :: "32 word"

text \<open>
  Modelled from the spec: \<open>DrmProperty\<close> (DrmProperty.h) is not among the sources. The
  spec has an optional property that the hardware lacks recorded as "capability
  unsupported". \<open>IsValidForLayer\<close> tests the alpha property with \<open>id() == 0\<close> and the
  rotation property by its conversion to \<open>bool\<close>: a property is known by its kernel id,
  and one that was never found keeps id 0.
\<close>

record DrmProperty =
  prop_id :: "32 word"

definition property_present :: "DrmProperty \<Rightarrow> bool" where
  "property_present p = (prop_id p \<noteq> 0)"

definition DRM_PLANE_TYPE_OVERLAY :: "32 word" where "DRM_PLANE_TYPE_OVERLAY = 0"
definition DRM_PLANE_TYPE_PRIMARY :: "32 word" where "DRM_PLANE_TYPE_PRIMARY = 1"
definition DRM_PLANE_TYPE_CURSOR :: "32 word" where "DRM_PLANE_TYPE_CURSOR = 2"

record DrmPlane =
  plane_id :: "32 word"
  plane_type :: "32 word"
  possible_crtc_mask :: "32 word"
  formats :: "32 word list"
  rotation_property :: DrmProperty
  alpha_property :: DrmProperty
  transform_enum_map :: "DrmHwcTransform \<rightharpoonup> 64 word"
  blending_enum_map :: "DrmHwcBlending \<rightharpoonup> 64 word"

text \<open>\<open>std::find\<close> over the format vector.\<close>

fun IsFormatSupported_in :: "32 word list \<Rightarrow> 32 word \<Rightarrow> bool" where
  "IsFormatSupported_in [] format = False"
| "IsFormatSupported_in (f # fs) format = (if f = format then True else IsFormatSupported_in fs format)"

definition IsFormatSupported :: "DrmPlane \<Rightarrow> 32 word \<Rightarrow> bool" where
  "IsFormatSupported plane format = IsFormatSupported_in (formats plane) format"

text \<open>
  \<open>DrmPlane::IsValidForLayer\<close>: four checks in the order of the source, each one an early
  \<open>return false\<close>. \<open>map.count(k) == 0\<close> is \<open>m k = None\<close>.
\<close>

definition IsValidForLayer :: "DrmPlane \<Rightarrow> DrmHwcLayer \<Rightarrow> bool" where
  "IsValidForLayer plane layer =
     (if (if \<not> property_present (rotation_property plane)
          then transform layer \<noteq> kIdentity
          else transform_enum_map plane (transform layer) = None)
      then False
      else if prop_id (alpha_property plane) = 0 \<and> alpha layer \<noteq> 0xffff
      then False
      else if blending_enum_map plane (blending layer) = None \<and>
              blending layer \<noteq> kNone \<and> blending layer \<noteq> kPreMult
      then False
      else if \<not> IsFormatSupported plane (buffer_info_format layer)
      then False
      else True)"

section \<open>Display compositions (compositor/DrmDisplayComposition.cpp)\<close>

text \<open>
  Modelled from the spec: \<open>DrmCompositionPlane\<close> and \<open>DrmCompositionType\<close> are declared in
  headers that are not among the sources. The spec gives a CompositionPlane an assigned
  plane or none, the list of its source-layer indices and a kind (layer assignment,
  disable, squash), a null plane pointer being \<open>None\<close>; the kinds of a composition are
  those that the setters and \<open>Plan\<close> compare with.
\<close>

datatype DrmCompositionPlaneType = kDisable | kLayer | kSquash

datatype DrmCompositionType =
  DRM_COMPOSITION_TYPE_EMPTY
| DRM_COMPOSITION_TYPE_FRAME
| DRM_COMPOSITION_TYPE_DPMS
| DRM_COMPOSITION_TYPE_MODESET

record DrmCompositionPlane =
  cp_type :: DrmCompositionPlaneType
  cp_plane :: "plane_ref option"
  source_layers :: "nat list"

definition DRM_MODE_DPMS_ON :: "32 word" where "DRM_MODE_DPMS_ON = 0"

text \<open>
  The state of a \<open>DrmDisplayComposition\<close>. The display mode is opaque to this file and
  stays a type parameter.
\<close>

record 'mode DrmDisplayComposition =
  comp_crtc :: "crtc_ref option"
  comp_type :: DrmCompositionType
  comp_dpms_mode :: "32 word"
  comp_display_mode :: 'mode
  comp_geometry_changed :: bool
  comp_layers :: "DrmHwcLayer list"
  composition_planes :: "DrmCompositionPlane list"

definition validate_composition_type ::
  "'mode DrmDisplayComposition \<Rightarrow> DrmCompositionType \<Rightarrow> bool" where
  "validate_composition_type c des =
     (comp_type c = DRM_COMPOSITION_TYPE_EMPTY \<or> comp_type c = des)"

text \<open>
  Each setter returns its status together with the composition as it leaves it.
  \<open>SetLayers\<close> appends the given layers one by one.
\<close>

definition SetLayers ::
  "'mode DrmDisplayComposition \<Rightarrow> DrmHwcLayer list \<Rightarrow> bool \<Rightarrow> int \<times> 'mode DrmDisplayComposition" where
  "SetLayers c layers geometry_changed =
     (if \<not> validate_composition_type c DRM_COMPOSITION_TYPE_FRAME then (- EINVAL, c)
      else (0, c\<lparr>comp_geometry_changed := geometry_changed,
                  comp_layers := foldl (\<lambda>acc l. acc @ [l]) (comp_layers c) layers,
                  comp_type := DRM_COMPOSITION_TYPE_FRAME\<rparr>))"

definition SetDpmsMode ::
  "'mode DrmDisplayComposition \<Rightarrow> 32 word \<Rightarrow> int \<times> 'mode DrmDisplayComposition" where
  "SetDpmsMode c dpms_mode =
     (if \<not> validate_composition_type c DRM_COMPOSITION_TYPE_DPMS then (- EINVAL, c)
      else (0, c\<lparr>comp_dpms_mode := dpms_mode, comp_type := DRM_COMPOSITION_TYPE_DPMS\<rparr>))"

definition SetDisplayMode ::
  "'mode DrmDisplayComposition \<Rightarrow> 'mode \<Rightarrow> int \<times> 'mode DrmDisplayComposition" where
  "SetDisplayMode c display_mode =
     (if \<not> validate_composition_type c DRM_COMPOSITION_TYPE_MODESET then (- EINVAL, c)
      else (0, c\<lparr>comp_display_mode := display_mode,
                  comp_dpms_mode := DRM_MODE_DPMS_ON,
                  comp_type := DRM_COMPOSITION_TYPE_MODESET\<rparr>))"

definition AddPlaneDisable ::
  "'mode DrmDisplayComposition \<Rightarrow> plane_ref option \<Rightarrow> int \<times> 'mode DrmDisplayComposition" where
  "AddPlaneDisable c plane =
     (0, c\<lparr>composition_planes := composition_planes c @
              [\<lparr>cp_type = kDisable, cp_plane = plane, source_layers = []\<rparr>]\<rparr>)"

definition AddPlaneComposition ::
  "'mode DrmDisplayComposition \<Rightarrow> DrmCompositionPlane \<Rightarrow> int \<times> 'mode DrmDisplayComposition" where
  "AddPlaneComposition c plane =
     (0, c\<lparr>composition_planes := composition_planes c @ [plane]\<rparr>)"

subsection \<open>Planning a frame\<close>

text \<open>
  The Planner is an external strategy object reached through \<open>planner_\<close>. Its
  \<open>ProvisionPlanes\<close> receives the map of layers to composite, the CRTC and the two plane
  pools by pointer, so it may change the pools and its own state \<open>'s\<close>; it returns a
  status and the composition planes. The model passes all of that explicitly:
  the result is (status, composition planes, primary pool, overlay pool, planner state).
\<close>

type_synonym 's Planner =
  "'s \<Rightarrow> (nat \<rightharpoonup> DrmHwcLayer) \<Rightarrow> crtc_ref option \<Rightarrow> plane_ref list \<Rightarrow> plane_ref list \<Rightarrow>
     int \<times> DrmCompositionPlane list \<times> plane_ref list \<times> plane_ref list \<times> 's"

text \<open>The loop that fills \<open>to_composite\<close>; \<open>emplace\<close> keeps an entry that is already there.\<close>

definition to_composite_of :: "DrmHwcLayer list \<Rightarrow> (nat \<rightharpoonup> DrmHwcLayer)" where
  "to_composite_of layers =
     foldl (\<lambda>m i. if m i = None then m(i \<mapsto> layers ! i) else m) Map.empty [0..<length layers]"

text \<open>
  The inner loop of \<open>Plan\<close>: walk the container, erase the first element equal to the
  plane and stop. A container without the plane is left as it is.
\<close>

fun erase_plane :: "plane_ref \<Rightarrow> plane_ref list \<Rightarrow> plane_ref list" where
  "erase_plane p [] = []"
| "erase_plane p (j # js) = (if j = p then js else j # erase_plane p js)"

text \<open>
  The outer loop of \<open>Plan\<close> over the composition planes: one without a plane is skipped;
  otherwise its source layers are sorted (\<open>std::sort\<close> on indices) and its plane is erased
  from the primary pool when the plane's type is primary, from the overlay pool when it
  is anything else.
\<close>

fun remove_used_planes ::
  "(plane_ref \<Rightarrow> DrmPlane) \<Rightarrow> DrmCompositionPlane list \<Rightarrow> plane_ref list \<Rightarrow> plane_ref list \<Rightarrow>
     DrmCompositionPlane list \<times> plane_ref list \<times> plane_ref list" where
  "remove_used_planes planes [] primary_planes overlay_planes = ([], primary_planes, overlay_planes)"
| "remove_used_planes planes (i # rest) primary_planes overlay_planes =
     (case cp_plane i of
        None \<Rightarrow>
          (case remove_used_planes planes rest primary_planes overlay_planes of
             (rest', pp, op) \<Rightarrow> (i # rest', pp, op))
      | Some p \<Rightarrow>
          (if plane_type (planes p) = DRM_PLANE_TYPE_PRIMARY
           then (case remove_used_planes planes rest (erase_plane p primary_planes) overlay_planes of
                   (rest', pp, op) \<Rightarrow> (i\<lparr>source_layers := sort (source_layers i)\<rparr> # rest', pp, op))
           else (case remove_used_planes planes rest primary_planes (erase_plane p overlay_planes) of
                   (rest', pp, op) \<Rightarrow> (i\<lparr>source_layers := sort (source_layers i)\<rparr> # rest', pp, op))))"

text \<open>
  \<open>DrmDisplayComposition::Plan\<close>. The result is (status, composition, primary pool,
  overlay pool, planner state). \<open>std::tie\<close> stores the Planner's composition planes
  before the status is looked at.
\<close>

definition Plan ::
  "'s Planner \<Rightarrow> (plane_ref \<Rightarrow> DrmPlane) \<Rightarrow> 's \<Rightarrow> 'mode DrmDisplayComposition \<Rightarrow>
     plane_ref list \<Rightarrow> plane_ref list \<Rightarrow>
     int \<times> 'mode DrmDisplayComposition \<times> plane_ref list \<times> plane_ref list \<times> 's" where
  "Plan ProvisionPlanes planes ps c primary_planes overlay_planes =
     (if comp_type c \<noteq> DRM_COMPOSITION_TYPE_FRAME
      then (0, c, primary_planes, overlay_planes, ps)
      else
        (case ProvisionPlanes ps (to_composite_of (comp_layers c)) (comp_crtc c)
                primary_planes overlay_planes of
           (ret, cps, primary1, overlay1, ps1) \<Rightarrow>
             if ret \<noteq> 0
             then (ret, c\<lparr>composition_planes := cps\<rparr>, primary1, overlay1, ps1)
             else
               (case remove_used_planes planes cps primary1 overlay1 of
                  (cps', primary2, overlay2) \<Rightarrow>
                    (0, c\<lparr>composition_planes := cps'\<rparr>, primary2, overlay2, ps1))))"






definition plan_composition :: "int \<times> 'c \<times> plane_ref list \<times> plane_ref list \<times> 's \<Rightarrow> 'c" where
  "plan_composition r = fst (snd r)"



definition plan_planner_state :: "int \<times> 'c \<times> plane_ref list \<times> plane_ref list \<times> 's \<Rightarrow> 's" where
  "plan_planner_state r = snd (snd (snd (snd r)))"

section \<open>The vsync worker (drm/VSyncWorker.cpp)\<close>

text \<open>
  Timestamps are \<open>int64_t\<close>. Signed overflow and division by zero are undefined in C++,
  so every arithmetic step is checked: the step yields a value when the exact result is
  representable and \<open>None\<close> when the program has no defined result. Division truncates
  towards zero.
\<close>

type_synonym int64 = "64 word"

definition int64_of :: "int \<Rightarrow> int64 option" where
  "int64_of v = (if - (2 ^ 63) \<le> v \<and> v < 2 ^ 63 then Some (word_of_int v) else None)"

definition add64 :: "int64 \<Rightarrow> int64 \<Rightarrow> int64 option" where
  "add64 a b = int64_of (sint a + sint b)"

definition sub64 :: "int64 \<Rightarrow> int64 \<Rightarrow> int64 option" where
  "sub64 a b = int64_of (sint a - sint b)"

definition mul64 :: "int64 \<Rightarrow> int64 \<Rightarrow> int64 option" where
  "mul64 a b = int64_of (sint a * sint b)"

definition div64 :: "int64 \<Rightarrow> int64 \<Rightarrow> int64 option" where
  "div64 a b =
     (if sint b = 0 then None
      else int64_of (sgn (sint a) * sgn (sint b) * (\<bar>sint a\<bar> div \<bar>sint b\<bar>)))"

text \<open>
  \<open>VSyncWorker::GetPhasedVSync\<close>, with the member \<open>last_timestamp_\<close> as first argument
  (-1, or any negative value, when no timestamp is known).
\<close>

definition GetPhasedVSync :: "int64 \<Rightarrow> int64 \<Rightarrow> int64 \<Rightarrow> int64 option" where
  "GetPhasedVSync last_timestamp frame_ns current =
     (if sint last_timestamp < 0 then add64 current frame_ns
      else
        (case sub64 current last_timestamp of None \<Rightarrow> None | Some d \<Rightarrow>
        (case div64 d frame_ns of None \<Rightarrow> None | Some q \<Rightarrow>
        (case add64 q 1 of None \<Rightarrow> None | Some q1 \<Rightarrow>
        (case mul64 frame_ns q1 of None \<Rightarrow> None | Some m \<Rightarrow>
           add64 m last_timestamp)))))"

definition kOneSecondNs :: int64 where
  "kOneSecondNs = 1000000000"

text \<open>
  \<open>clock_nanosleep\<close> is called again while it returns -1 with \<open>errno == EINTR\<close>. The
  outcomes (return value, errno) of the successive calls are an input; when they run
  out before a call ends the loop, the loop has not returned.
\<close>

definition EINTR :: int where "EINTR = 4"

fun nanosleep_loop :: "(int \<times> int) list \<Rightarrow> int option" where
  "nanosleep_loop [] = None"
| "nanosleep_loop ((ret, errno) # calls) =
     (if ret = - 1 \<and> errno = EINTR then nanosleep_loop calls else Some ret)"

text \<open>
  \<open>VSyncWorker::SyntheticWaitVBlank\<close>. Inputs: \<open>last_timestamp_\<close>; the period
  \<open>kOneSecondNs / static_cast<int>(refresh)\<close>, taken as given because the refresh rate
  is a float; what \<open>clock_gettime\<close> returned and stored (the fields of a \<open>timespec\<close>,
  64 bits wide); the outcomes of the sleeps. The result is the status and, on status
  0, the value stored in \<open>*timestamp\<close>; \<open>None\<close> when there is no defined result. The
  conversion \<open>int(...)\<close> keeps the low 32 bits, the assignment to \<open>tv_nsec\<close> sign-extends.
\<close>

definition SyntheticWaitVBlank ::
  "int64 \<Rightarrow> int64 \<Rightarrow> int \<times> int64 \<times> int64 \<Rightarrow> (int \<times> int) list \<Rightarrow> (int \<times> int64 option) option" where
  "SyntheticWaitVBlank last_timestamp frame_ns clock sleeps =
     (case clock of (ret, tv_sec, tv_nsec) \<Rightarrow>
        if ret \<noteq> 0 then Some (ret, None)
        else
          (case mul64 tv_sec kOneSecondNs of None \<Rightarrow> None | Some s \<Rightarrow>
          (case add64 s tv_nsec of None \<Rightarrow> None | Some now \<Rightarrow>
          (case GetPhasedVSync last_timestamp frame_ns now of None \<Rightarrow> None | Some phased_timestamp \<Rightarrow>
          (case div64 phased_timestamp kOneSecondNs of None \<Rightarrow> None | Some sec \<Rightarrow>
          (case mul64 sec kOneSecondNs of None \<Rightarrow> None | Some sn \<Rightarrow>
          (case sub64 phased_timestamp sn of None \<Rightarrow> None | Some d \<Rightarrow>
             let nsec = (scast (ucast d :: 32 word) :: int64) in
             (case nanosleep_loop sleeps of None \<Rightarrow> None | Some r \<Rightarrow>
                if r \<noteq> 0 then Some (r, None)
                else
                  (case mul64 sec kOneSecondNs of None \<Rightarrow> None | Some a \<Rightarrow>
                  (case add64 a nsec of None \<Rightarrow> None | Some t \<Rightarrow> Some (0, Some t)))))))))))"

text \<open>
  Successive iterations of \<open>VSyncWorker::Routine\<close> that all fall back to the synthetic
  wait with the same period while the worker stays enabled. Each iteration has its own
  clock reading and sleep outcomes. After a wait with status 0 \<open>Routine\<close> hands the
  timestamp to the callback and stores it in \<open>last_timestamp_\<close>; after any other status
  it returns without doing either. The result lists the timestamps handed out.
\<close>

fun synthetic_timestamps ::
  "int64 \<Rightarrow> int64 \<Rightarrow> ((int \<times> int64 \<times> int64) \<times> (int \<times> int) list) list \<Rightarrow> int64 list option" where
  "synthetic_timestamps last_timestamp frame_ns [] = Some []"
| "synthetic_timestamps last_timestamp frame_ns ((clock, sleeps) # rest) =
     (case SyntheticWaitVBlank last_timestamp frame_ns clock sleeps of
        None \<Rightarrow> None
      | Some (ret, None) \<Rightarrow> synthetic_timestamps last_timestamp frame_ns rest
      | Some (ret, Some timestamp) \<Rightarrow>
          (case synthetic_timestamps timestamp frame_ns rest of
             None \<Rightarrow> None
           | Some ts \<Rightarrow> Some (timestamp # ts)))"

text \<open>
  Vocabulary for the statements: the nanoseconds a \<open>timespec\<close> stands for; the next
  wake-up time by the formula, on unbounded integers with rounding down; and the
  condition that the inputs of a run come from a monotonic clock and from sleeps that
  end. For each iteration whose clock reading succeeded, the reading is a normalised
  \<open>timespec\<close>, it is not earlier than the timestamp stored before it, one period later
  still fits in 64 bits, and the sleep loop returns.
\<close>

definition timespec_ns :: "int64 \<Rightarrow> int64 \<Rightarrow> int" where
  "timespec_ns tv_sec tv_nsec = sint tv_sec * 1000000000 + sint tv_nsec"

definition next_vsync :: "int \<Rightarrow> int \<Rightarrow> int \<Rightarrow> int" where
  "next_vsync last_timestamp period now =
     (if last_timestamp < 0 then now + period
      else period * ((now - last_timestamp) div period + 1) + last_timestamp)"

fun clock_follows ::
  "int \<Rightarrow> int \<Rightarrow> ((int \<times> int64 \<times> int64) \<times> (int \<times> int) list) list \<Rightarrow> bool" where
  "clock_follows last_timestamp period [] = True"
| "clock_follows last_timestamp period (((ret, tv_sec, tv_nsec), sleeps) # rest) =
     (if ret \<noteq> 0 then clock_follows last_timestamp period rest
      else 0 \<le> sint tv_sec \<and> 0 \<le> sint tv_nsec \<and> sint tv_nsec < 1000000000 \<and>
           timespec_ns tv_sec tv_nsec + period < 2 ^ 63 \<and>
           last_timestamp \<le> timespec_ns tv_sec tv_nsec \<and>
           nanosleep_loop sleeps \<noteq> None \<and>
           clock_follows
             (if nanosleep_loop sleeps = Some 0
              then next_vsync last_timestamp period (timespec_ns tv_sec tv_nsec)
              else last_timestamp) period rest)"

section \<open>The device (drm/DrmDevice.cpp, drm/DrmConnector.cpp)\<close>

subsection \<open>Connectors\<close>

datatype drmModeConnection =
  DRM_MODE_CONNECTED
| DRM_MODE_DISCONNECTED
| DRM_MODE_UNKNOWNCONNECTION

text \<open>The connector types of the kernel interface (drm_mode.h).\<close>

definition DRM_MODE_CONNECTOR_VGA :: "32 word" where "DRM_MODE_CONNECTOR_VGA = 1"
definition DRM_MODE_CONNECTOR_DVII :: "32 word" where "DRM_MODE_CONNECTOR_DVII = 2"
definition DRM_MODE_CONNECTOR_DVID :: "32 word" where "DRM_MODE_CONNECTOR_DVID = 3"
definition DRM_MODE_CONNECTOR_LVDS :: "32 word" where "DRM_MODE_CONNECTOR_LVDS = 7"
definition DRM_MODE_CONNECTOR_DisplayPort :: "32 word" where "DRM_MODE_CONNECTOR_DisplayPort = 10"
definition DRM_MODE_CONNECTOR_HDMIA :: "32 word" where "DRM_MODE_CONNECTOR_HDMIA = 11"
definition DRM_MODE_CONNECTOR_TV :: "32 word" where "DRM_MODE_CONNECTOR_TV = 13"
definition DRM_MODE_CONNECTOR_eDP :: "32 word" where "DRM_MODE_CONNECTOR_eDP = 14"
definition DRM_MODE_CONNECTOR_VIRTUAL :: "32 word" where "DRM_MODE_CONNECTOR_VIRTUAL = 15"
definition DRM_MODE_CONNECTOR_DSI :: "32 word" where "DRM_MODE_CONNECTOR_DSI = 16"
definition DRM_MODE_CONNECTOR_DPI :: "32 word" where "DRM_MODE_CONNECTOR_DPI = 17"
definition DRM_MODE_CONNECTOR_WRITEBACK :: "32 word" where "DRM_MODE_CONNECTOR_WRITEBACK = 18"

text \<open>
  The binding state of a \<open>DrmConnector\<close>: \<open>display_\<close> is -1 until a display id is
  assigned (the constructor stores -1), \<open>encoder_\<close> may be null. Sizes, modes and
  properties play no part in what follows and are left out.
\<close>

record DrmConnector =
  conn_id :: "32 word"
  conn_encoder :: "enc_ref option"
  conn_display :: int
  conn_type :: "32 word"
  conn_type_id :: "32 word"
  conn_state :: drmModeConnection
  conn_possible_encoders :: "enc_ref list"

definition internal :: "DrmConnector \<Rightarrow> bool" where
  "internal c =
     (conn_type c = DRM_MODE_CONNECTOR_LVDS \<or> conn_type c = DRM_MODE_CONNECTOR_eDP \<or>
      conn_type c = DRM_MODE_CONNECTOR_DSI \<or> conn_type c = DRM_MODE_CONNECTOR_VIRTUAL \<or>
      conn_type c = DRM_MODE_CONNECTOR_DPI)"

definition external :: "DrmConnector \<Rightarrow> bool" where
  "external c =
     (conn_type c = DRM_MODE_CONNECTOR_HDMIA \<or> conn_type c = DRM_MODE_CONNECTOR_DisplayPort \<or>
      conn_type c = DRM_MODE_CONNECTOR_DVID \<or> conn_type c = DRM_MODE_CONNECTOR_DVII \<or>
      conn_type c = DRM_MODE_CONNECTOR_VGA)"

text \<open>With \<open>DRM_MODE_CONNECTOR_WRITEBACK\<close> defined by the kernel headers.\<close>

definition writeback :: "DrmConnector \<Rightarrow> bool" where
  "writeback c = (conn_type c = DRM_MODE_CONNECTOR_WRITEBACK)"

definition kTypesCount :: nat where "kTypesCount = 17"

definition kNames :: "string list" where
  "kNames =
     [''None'', ''VGA'', ''DVI-I'', ''DVI-D'', ''DVI-A'', ''Composite'',
      ''SVIDEO'', ''LVDS'', ''Component'', ''DIN'', ''DP'', ''HDMI-A'',
      ''HDMI-B'', ''TV'', ''eDP'', ''Virtual'', ''DSI'']"

text \<open>What \<open>operator<<\<close> writes for an unsigned number: its decimal digits.\<close>

fun decimal :: "nat \<Rightarrow> string" where
  "decimal n =
     (if n < 10 then [''0123456789'' ! n]
      else decimal (n div 10) @ [''0123456789'' ! (n mod 10)])"

definition name :: "DrmConnector \<Rightarrow> string" where
  "name c =
     (if unat (conn_type c) < kTypesCount
      then kNames ! unat (conn_type c) @ ''-'' @ decimal (unat (conn_type_id c))
      else ''None'')"

subsection \<open>CRTCs and encoders\<close>

text \<open>
  Modelled from the spec: the classes \<open>DrmCrtc\<close> and \<open>DrmEncoder\<close> (DrmCrtc.h,
  DrmEncoder.h) are not among the sources. The spec gives a Crtc an id, a pipe index and
  a "bound display id or unbound", and lets a Crtc be taken for a display when it is
  "unbound or already bound to this same display"; unbound is -1, as for connectors.
  It gives an Encoder an id, a current Crtc reference that may be absent and the list of
  its possible Crtcs; writeback attach uses "just encoders which had not been bound
  already", so an encoder remembers the display of the Crtc it was last bound to (-1
  before any binding) and can be bound for a display under the same rule as a Crtc.
\<close>

record DrmCrtc =
  crtc_id :: "32 word"
  crtc_pipe :: nat
  crtc_display :: int

record DrmEncoder =
  enc_id :: "32 word"
  enc_crtc :: "crtc_ref option"
  enc_display :: int
  enc_possible_crtcs :: "crtc_ref list"

definition crtc_can_bind :: "DrmCrtc \<Rightarrow> int \<Rightarrow> bool" where
  "crtc_can_bind crtc display = (crtc_display crtc = - 1 \<or> crtc_display crtc = display)"

definition enc_can_bind :: "DrmEncoder \<Rightarrow> int \<Rightarrow> bool" where
  "enc_can_bind enc display = (enc_display enc = - 1 \<or> enc_display enc = display)"

subsection \<open>The device\<close>

text \<open>
  The device owns its connectors in two vectors, kept here as lists of records; a
  pointer to a connector of \<open>connectors_\<close> is its index. Encoders and CRTCs are reached
  through pointers held by connectors and encoders, so the device keeps them in stores.
  \<open>displays_\<close> is a \<open>std::map\<close>, kept as a list of pairs with distinct keys.
\<close>

record DrmDevice =
  connectors :: "DrmConnector list"
  writeback_connectors :: "DrmConnector list"
  encoders :: "enc_ref \<Rightarrow> DrmEncoder"
  crtcs :: "crtc_ref \<Rightarrow> DrmCrtc"
  displays :: "(int \<times> int) list"

text \<open>\<open>displays_[k] = v\<close>.\<close>

fun map_assign :: "int \<Rightarrow> int \<Rightarrow> (int \<times> int) list \<Rightarrow> (int \<times> int) list" where
  "map_assign k v [] = [(k, v)]"
| "map_assign k v ((k', v') # m) =
     (if k' = k then (k, v) # m else (k', v') # map_assign k v m)"

text \<open>The setters, applied through a pointer into a store.\<close>

definition crtc_set_display :: "DrmDevice \<Rightarrow> crtc_ref \<Rightarrow> int \<Rightarrow> DrmDevice" where
  "crtc_set_display dev crtc display =
     dev\<lparr>crtcs := (crtcs dev)(crtc := (crtcs dev crtc)\<lparr>crtc_display := display\<rparr>)\<rparr>"

definition enc_set_crtc :: "DrmDevice \<Rightarrow> enc_ref \<Rightarrow> crtc_ref \<Rightarrow> DrmDevice" where
  "enc_set_crtc dev enc crtc =
     dev\<lparr>encoders := (encoders dev)
            (enc := (encoders dev enc)\<lparr>enc_crtc := Some crtc,
                                       enc_display := crtc_display (crtcs dev crtc)\<rparr>)\<rparr>"

text \<open>
  \<open>DrmDevice::GetWritebackConnectorForDisplay\<close>: the first writeback connector with that
  display id, as its index in \<open>writeback_connectors_\<close>; \<open>None\<close> for \<open>nullptr\<close>.
\<close>

fun first_with_display :: "DrmConnector list \<Rightarrow> int \<Rightarrow> nat option" where
  "first_with_display [] display = None"
| "first_with_display (conn # conns) display =
     (if conn_display conn = display then Some 0
      else map_option Suc (first_with_display conns display))"

definition GetWritebackConnectorForDisplay :: "DrmDevice \<Rightarrow> int \<Rightarrow> nat option" where
  "GetWritebackConnectorForDisplay dev display =
     first_with_display (writeback_connectors dev) display"

subsection \<open>Binding encoders and CRTCs\<close>

text \<open>
  The loop of \<open>TryEncoderForDisplay\<close> over the encoder's possible CRTCs. The encoder's
  own CRTC is skipped; the first other one that can bind is bound and ends the call.
\<close>

fun try_possible_crtcs :: "DrmDevice \<Rightarrow> int \<Rightarrow> enc_ref \<Rightarrow> crtc_ref list \<Rightarrow> int \<times> DrmDevice" where
  "try_possible_crtcs dev display enc [] = (- EAGAIN, dev)"
| "try_possible_crtcs dev display enc (crtc # rest) =
     (if Some crtc = enc_crtc (encoders dev enc) then try_possible_crtcs dev display enc rest
      else if crtc_can_bind (crtcs dev crtc) display
      then (0, enc_set_crtc (crtc_set_display dev crtc display) enc crtc)
      else try_possible_crtcs dev display enc rest)"

definition TryEncoderForDisplay :: "DrmDevice \<Rightarrow> int \<Rightarrow> enc_ref \<Rightarrow> int \<times> DrmDevice" where
  "TryEncoderForDisplay dev display enc =
     (case enc_crtc (encoders dev enc) of
        Some crtc \<Rightarrow>
          if crtc_can_bind (crtcs dev crtc) display
          then (0, enc_set_crtc (crtc_set_display dev crtc display) enc crtc)
          else try_possible_crtcs dev display enc (enc_possible_crtcs (encoders dev enc))
      | None \<Rightarrow> try_possible_crtcs dev display enc (enc_possible_crtcs (encoders dev enc)))"

text \<open>
  \<open>CreateDisplayPipe\<close> for the connector at index \<open>i\<close> of \<open>connectors_\<close>. The loop over
  the possible encoders stops at the first encoder that binds, or at the first status
  other than \<open>-EAGAIN\<close>.
\<close>

definition set_encoder :: "DrmDevice \<Rightarrow> nat \<Rightarrow> enc_ref \<Rightarrow> DrmDevice" where
  "set_encoder dev i enc =
     dev\<lparr>connectors := (connectors dev)[i := (connectors dev ! i)\<lparr>conn_encoder := Some enc\<rparr>]\<rparr>"

fun try_possible_encoders :: "DrmDevice \<Rightarrow> nat \<Rightarrow> int \<Rightarrow> enc_ref list \<Rightarrow> int \<times> DrmDevice" where
  "try_possible_encoders dev i display [] = (- ENODEV, dev)"
| "try_possible_encoders dev i display (enc # rest) =
     (case TryEncoderForDisplay dev display enc of
        (ret, dev') \<Rightarrow>
          if ret = 0 then (0, set_encoder dev' i enc)
          else if ret \<noteq> - EAGAIN then (ret, dev')
          else try_possible_encoders dev' i display rest)"

definition CreateDisplayPipe :: "DrmDevice \<Rightarrow> nat \<Rightarrow> int \<times> DrmDevice" where
  "CreateDisplayPipe dev i =
     (let connector = connectors dev ! i; display = conn_display connector in
      case conn_encoder connector of
        Some enc \<Rightarrow>
          (case TryEncoderForDisplay dev display enc of
             (ret, dev') \<Rightarrow>
               if ret = 0 then (0, dev')
               else if ret \<noteq> - EAGAIN then (ret, dev')
               else try_possible_encoders dev' i display (conn_possible_encoders connector))
      | None \<Rightarrow> try_possible_encoders dev i display (conn_possible_encoders connector))"

subsection \<open>Attaching a writeback connector\<close>

text \<open>
  \<open>DrmConnector::UpdateModes\<close>, as far as the binding state goes: the connection state is
  read again from the kernel. \<open>drmModeGetConnector\<close> is an input, from connector id to
  the reported connection, \<open>None\<close> when the call fails.
\<close>

definition UpdateModes ::
  "(32 word \<Rightarrow> drmModeConnection option) \<Rightarrow> DrmConnector \<Rightarrow> int \<times> DrmConnector" where
  "UpdateModes drmModeGetConnector conn =
     (case drmModeGetConnector (conn_id conn) of
        None \<Rightarrow> (- ENODEV, conn)
      | Some connection \<Rightarrow> (0, conn\<lparr>conn_state := connection\<rparr>))"

text \<open>
  The three nested loops of \<open>AttachWriteback\<close>, innermost first: over the possible CRTCs
  of a writeback encoder (true when the loop reaches the binding statements), over the
  possible encoders of a writeback connector (the encoder for which it does), and over
  the writeback connectors, with \<open>k\<close> the index of the head of the remaining list.
\<close>

fun writeback_crtc_found :: "DrmDevice \<Rightarrow> crtc_ref \<Rightarrow> enc_ref \<Rightarrow> crtc_ref list \<Rightarrow> bool" where
  "writeback_crtc_found dev display_crtc writeback_enc [] = False"
| "writeback_crtc_found dev display_crtc writeback_enc (possible_crtc # rest) =
     (if possible_crtc \<noteq> display_crtc
      then writeback_crtc_found dev display_crtc writeback_enc rest
      else if enc_can_bind (encoders dev writeback_enc) (crtc_display (crtcs dev display_crtc))
      then True
      else writeback_crtc_found dev display_crtc writeback_enc rest)"

fun writeback_enc_found :: "DrmDevice \<Rightarrow> crtc_ref \<Rightarrow> enc_ref list \<Rightarrow> enc_ref option" where
  "writeback_enc_found dev display_crtc [] = None"
| "writeback_enc_found dev display_crtc (writeback_enc # rest) =
     (if writeback_crtc_found dev display_crtc writeback_enc
           (enc_possible_crtcs (encoders dev writeback_enc))
      then Some writeback_enc
      else writeback_enc_found dev display_crtc rest)"

definition bind_writeback ::
  "(32 word \<Rightarrow> drmModeConnection option) \<Rightarrow> DrmDevice \<Rightarrow> crtc_ref \<Rightarrow> nat \<Rightarrow> DrmConnector \<Rightarrow>
     enc_ref \<Rightarrow> DrmDevice" where
  "bind_writeback drmModeGetConnector dev display_crtc k writeback_conn writeback_enc =
     (let dev1 = enc_set_crtc dev writeback_enc display_crtc;
          conn1 = writeback_conn\<lparr>conn_encoder := Some writeback_enc\<rparr>;
          conn2 = conn1\<lparr>conn_display := crtc_display (crtcs dev1 display_crtc)\<rparr>;
          conn3 = snd (UpdateModes drmModeGetConnector conn2)
      in dev1\<lparr>writeback_connectors := (writeback_connectors dev1)[k := conn3]\<rparr>)"

fun attach_loop ::
  "(32 word \<Rightarrow> drmModeConnection option) \<Rightarrow> DrmDevice \<Rightarrow> crtc_ref \<Rightarrow> nat \<Rightarrow> DrmConnector list \<Rightarrow>
     int \<times> DrmDevice" where
  "attach_loop drmModeGetConnector dev display_crtc k [] = (- EINVAL, dev)"
| "attach_loop drmModeGetConnector dev display_crtc k (writeback_conn # rest) =
     (if conn_display writeback_conn \<ge> 0
      then attach_loop drmModeGetConnector dev display_crtc (Suc k) rest
      else
        (case writeback_enc_found dev display_crtc (conn_possible_encoders writeback_conn) of
           None \<Rightarrow> attach_loop drmModeGetConnector dev display_crtc (Suc k) rest
         | Some writeback_enc \<Rightarrow>
             (0, bind_writeback drmModeGetConnector dev display_crtc k writeback_conn writeback_enc)))"

text \<open>
  \<open>DrmDevice::AttachWriteback\<close>. The first line dereferences the connector's encoder and
  that encoder's CRTC; when either is null the call has no defined result (\<open>None\<close>).
\<close>

definition AttachWriteback ::
  "(32 word \<Rightarrow> drmModeConnection option) \<Rightarrow> DrmDevice \<Rightarrow> DrmConnector \<Rightarrow> (int \<times> DrmDevice) option" where
  "AttachWriteback drmModeGetConnector dev display_conn =
     (case conn_encoder display_conn of
        None \<Rightarrow> None
      | Some enc \<Rightarrow>
          (case enc_crtc (encoders dev enc) of
             None \<Rightarrow> None
           | Some display_crtc \<Rightarrow>
               if GetWritebackConnectorForDisplay dev (crtc_display (crtcs dev display_crtc)) \<noteq> None
               then Some (- EINVAL, dev)
               else Some (attach_loop drmModeGetConnector dev display_crtc 0
                            (writeback_connectors dev))))"

subsection \<open>Choosing the primary display\<close>

text \<open>\<open>std::find_if\<close>, as the index of the first element that satisfies the predicate.\<close>

fun find_if :: "('a \<Rightarrow> bool) \<Rightarrow> 'a list \<Rightarrow> nat option" where
  "find_if P [] = None"
| "find_if P (x # xs) = (if P x then Some 0 else map_option Suc (find_if P xs))"

definition iter_swap :: "nat \<Rightarrow> nat \<Rightarrow> 'a list \<Rightarrow> 'a list" where
  "iter_swap i j xs = xs[i := xs ! j, j := xs ! i]"

text \<open>
  The loop of \<open>make_primary_display_candidates\<close> over the names of the display order.
  The candidates are indices into \<open>connectors_\<close>; \<open>curr_connector\<close> is a position in the
  candidate list. Swapping with \<open>curr_connector\<close> once it has reached the end
  dereferences the end iterator: no defined result.
\<close>

fun put_named_first ::
  "DrmConnector list \<Rightarrow> string list \<Rightarrow> nat list \<Rightarrow> nat \<Rightarrow> (nat list \<times> nat) option" where
  "put_named_first conns [] primary_candidates curr_connector =
     Some (primary_candidates, curr_connector)"
| "put_named_first conns (display_name # names) primary_candidates curr_connector =
     (case find_if (\<lambda>c. name (conns ! c) = display_name) primary_candidates of
        None \<Rightarrow> put_named_first conns names primary_candidates curr_connector
      | Some it \<Rightarrow>
          if curr_connector < length primary_candidates
          then put_named_first conns names
                 (iter_swap it curr_connector primary_candidates) (Suc curr_connector)
          else None)"

text \<open>
  \<open>make_primary_display_candidates\<close>. The display order read from the property is an
  input; \<open>back()\<close> of an empty order has no defined result. \<open>std::partition\<close> belongs to the
  C++ library and is an input too: the standard fixes which elements come first, not
  their order.
\<close>

definition make_primary_display_candidates ::
  "((nat \<Rightarrow> bool) \<Rightarrow> nat list \<Rightarrow> nat list) \<Rightarrow> string list \<Rightarrow> DrmConnector list \<Rightarrow> nat list option" where
  "make_primary_display_candidates std_partition display_order conns =
     (let primary_candidates =
            filter (\<lambda>c. \<not> conn_state (conns ! c) \<noteq> DRM_MODE_CONNECTED) [0..<length conns]
      in if display_order = [] then None
         else
           let use_other = (last display_order = ''...'') in
           (case put_named_first conns display_order primary_candidates 0 of
              None \<Rightarrow> None
            | Some (ordered, curr_connector) \<Rightarrow>
                if use_other
                then Some (take curr_connector ordered @
                           std_partition (\<lambda>c. internal (conns ! c)) (drop curr_connector ordered))
                else Some (take curr_connector ordered)))"

subsection \<open>Initialisation\<close>

text \<open>
  \<open>DrmDevice::Init\<close> from the choice of the primary display on (the comment "Primary
  display priority" and below). What comes before talks to the kernel and is summed up
  by its outcome: the vectors built so far, in the device passed in, and the status
  \<open>ret\<close> of the enumeration loops. The outcomes of the plane enumeration (0 or the code
  it returns with) and of the event listener's \<open>Init\<close> are inputs as well.
\<close>

definition select_primary ::
  "((nat \<Rightarrow> bool) \<Rightarrow> nat list \<Rightarrow> nat list) \<Rightarrow> string list \<Rightarrow> DrmDevice \<Rightarrow> int \<Rightarrow>
     (DrmDevice \<times> int \<times> bool) option" where
  "select_primary std_partition display_order dev num_displays =
     (let found_primary = (num_displays \<noteq> 0) in
      case make_primary_display_candidates std_partition display_order (connectors dev) of
        None \<Rightarrow> None
      | Some primary_candidates \<Rightarrow>
          if primary_candidates \<noteq> [] \<and> \<not> found_primary
          then
            let i = hd primary_candidates in
            Some (dev\<lparr>connectors :=
                        (connectors dev)[i := (connectors dev ! i)\<lparr>conn_display := num_displays\<rparr>],
                      displays := map_assign num_displays num_displays (displays dev)\<rparr>,
                  num_displays + 1, True)
          else Some (dev, num_displays, found_primary))"

text \<open>
  The loop "pick first available as primary and for the others assign consecutive
  display_numbers". It returns the connectors, \<open>displays_\<close>, \<open>num_displays\<close> and
  \<open>found_primary\<close> as the loop leaves them.
\<close>

fun assign_displays ::
  "DrmConnector list \<Rightarrow> (int \<times> int) list \<Rightarrow> int \<Rightarrow> bool \<Rightarrow>
     DrmConnector list \<times> (int \<times> int) list \<times> int \<times> bool" where
  "assign_displays [] disp num_displays found_primary = ([], disp, num_displays, found_primary)"
| "assign_displays (conn # rest) disp num_displays found_primary =
     (if external conn \<or> internal conn
      then
        if \<not> found_primary
        then (case assign_displays rest (map_assign num_displays num_displays disp)
                     (num_displays + 1) True of
                (rest', r) \<Rightarrow> (conn\<lparr>conn_display := num_displays\<rparr> # rest', r))
        else if conn_display conn < 0
        then (case assign_displays rest (map_assign num_displays num_displays disp)
                     (num_displays + 1) found_primary of
                (rest', r) \<Rightarrow> (conn\<lparr>conn_display := num_displays\<rparr> # rest', r))
        else (case assign_displays rest disp num_displays found_primary of
                (rest', r) \<Rightarrow> (conn # rest', r))
      else (case assign_displays rest disp num_displays found_primary of
              (rest', r) \<Rightarrow> (conn # rest', r)))"

text \<open>
  The last loop of \<open>Init\<close>, over the indices of \<open>connectors_\<close>: create the pipe, then try to
  attach a writeback connector, whose status is only logged.
\<close>

fun create_pipes ::
  "(32 word \<Rightarrow> drmModeConnection option) \<Rightarrow> DrmDevice \<Rightarrow> nat list \<Rightarrow> (int \<times> DrmDevice) option" where
  "create_pipes drmModeGetConnector dev [] = Some (0, dev)"
| "create_pipes drmModeGetConnector dev (i # rest) =
     (case CreateDisplayPipe dev i of
        (ret, dev') \<Rightarrow>
          if ret \<noteq> 0 then Some (ret, dev')
          else
            (case AttachWriteback drmModeGetConnector dev' (connectors dev' ! i) of
               None \<Rightarrow> None
             | Some (r, dev'') \<Rightarrow> create_pipes drmModeGetConnector dev'' rest))"

text \<open>
  The result of \<open>Init\<close> is the returned pair (status, number of displays) and the
  device as \<open>Init\<close> leaves it.
\<close>

definition Init ::
  "((nat \<Rightarrow> bool) \<Rightarrow> nat list \<Rightarrow> nat list) \<Rightarrow> string list \<Rightarrow>
   (32 word \<Rightarrow> drmModeConnection option) \<Rightarrow> int \<Rightarrow> int \<Rightarrow> int \<Rightarrow> DrmDevice \<Rightarrow> int \<Rightarrow>
     ((int \<times> nat) \<times> DrmDevice) option" where
  "Init std_partition display_order drmModeGetConnector ret planes_ret listener_ret dev num_displays =
     (case select_primary std_partition display_order dev num_displays of
        None \<Rightarrow> None
      | Some (dev1, num_displays1, found_primary) \<Rightarrow>
          (case assign_displays (connectors dev1) (displays dev1) num_displays1 found_primary of
             (conns, disp, counters) \<Rightarrow>
               let dev2 = dev1\<lparr>connectors := conns, displays := disp\<rparr> in
               if ret \<noteq> 0 then Some ((ret, 0), dev2)
               else if planes_ret \<noteq> 0 then Some ((planes_ret, 0), dev2)
               else if listener_ret \<noteq> 0 then Some ((listener_ret, 0), dev2)
               else
                 (case create_pipes drmModeGetConnector dev2 [0..<length (connectors dev2)] of
                    None \<Rightarrow> None
                  | Some (r, dev3) \<Rightarrow>
                      if r \<noteq> 0 then Some ((r, 0), dev3)
                      else Some ((0, length (displays dev3)), dev3))))"


subsection \<open>Vocabulary for the statements about the device\<close>

text \<open>
  The CRTC that the claim about \<open>TryEncoderForDisplay\<close> names: the encoder's current CRTC
  when there is one and it can bind the display; otherwise the first of the encoder's
  possible CRTCs, the current one left out, that can bind the display.
\<close>

definition chosen_crtc :: "DrmDevice \<Rightarrow> int \<Rightarrow> enc_ref \<Rightarrow> crtc_ref option" where
  "chosen_crtc dev display enc =
     (let current = enc_crtc (encoders dev enc);
          candidate = (\<lambda>c. crtc_can_bind (crtcs dev c) display)
      in if (case current of Some c \<Rightarrow> candidate c | None \<Rightarrow> False) then current
         else List.find (\<lambda>c. Some c \<noteq> current \<and> candidate c)
                (enc_possible_crtcs (encoders dev enc)))"

text \<open>
  The device in which CRTC \<open>c\<close> is bound to the display and the encoder refers to \<open>c\<close>,
  everything else being as in \<open>dev\<close>.
\<close>

definition bound_to :: "DrmDevice \<Rightarrow> int \<Rightarrow> enc_ref \<Rightarrow> crtc_ref \<Rightarrow> DrmDevice" where
  "bound_to dev display enc c =
     dev\<lparr>encoders := (encoders dev)
            (enc := (encoders dev enc)\<lparr>enc_crtc := Some c, enc_display := display\<rparr>),
         crtcs := (crtcs dev)(c := (crtcs dev c)\<lparr>crtc_display := display\<rparr>)\<rparr>"

text \<open>No display id (0 or more) is held by two writeback connectors.\<close>

definition one_writeback_per_display :: "DrmDevice \<Rightarrow> bool" where
  "one_writeback_per_display dev =
     distinct (filter (\<lambda>d. 0 \<le> d) (map conn_display (writeback_connectors dev)))"

text \<open>
  The display ids that numbering the internal and external connectors from \<open>n\<close> on, in
  enumeration order, gives to a list of connectors; -1 for the others.
\<close>

fun numbered :: "int \<Rightarrow> DrmConnector list \<Rightarrow> int list" where
  "numbered n [] = []"
| "numbered n (c # cs) =
     (if external c \<or> internal c then n # numbered (n + 1) cs else - 1 # numbered n cs)"

text \<open>
  A connector that receives a display id in the assignment loop of \<open>Init\<close>, and a
  connector without its encoder pointer, the one field that creating a pipe writes.
\<close>

definition display_capable :: "DrmConnector \<Rightarrow> bool" where
  "display_capable c = (external c \<or> internal c)"

definition unbound :: "DrmConnector \<Rightarrow> DrmConnector" where
  "unbound c = c\<lparr>conn_encoder := None\<rparr>"

text \<open>
  The connector that the selection step of \<open>Init\<close> makes the primary display, as its index
  in \<open>connectors_\<close>: the first primary candidate, when there is one and no display was
  counted before.
\<close>

definition primary_choice ::
  "((nat \<Rightarrow> bool) \<Rightarrow> nat list \<Rightarrow> nat list) \<Rightarrow> string list \<Rightarrow> DrmDevice \<Rightarrow> int \<Rightarrow> nat option" where
  "primary_choice std_partition display_order dev num_displays =
     (case make_primary_display_candidates std_partition display_order (connectors dev) of
        None \<Rightarrow> None
      | Some primary_candidates \<Rightarrow>
          if primary_candidates \<noteq> [] \<and> num_displays = 0
          then Some (hd primary_candidates) else None)"

section \<open>Example configurations\<close>

text \<open>
  A device with three planes: reference 1 is a primary plane, reference 2 an overlay
  plane, every other reference a cursor plane. None of them has a rotation, alpha or
  blend property; all scan out XR24 only.
\<close>

definition example_plane :: "32 word \<Rightarrow> 32 word \<Rightarrow> DrmPlane" where
  "example_plane i t =
     \<lparr>plane_id = i, plane_type = t, possible_crtc_mask = 1, formats = [0x34325258],
      rotation_property = \<lparr>prop_id = 0\<rparr>, alpha_property = \<lparr>prop_id = 0\<rparr>,
      transform_enum_map = Map.empty, blending_enum_map = Map.empty\<rparr>"

definition example_planes :: "plane_ref \<Rightarrow> DrmPlane" where
  "example_planes r =
     (if r = 1 then example_plane 31 DRM_PLANE_TYPE_PRIMARY
      else if r = 2 then example_plane 32 DRM_PLANE_TYPE_OVERLAY
      else example_plane 33 DRM_PLANE_TYPE_CURSOR)"

definition example_layer :: DrmHwcLayer where
  "example_layer =
     \<lparr>transform = kIdentity, blending = kNone, alpha = 0xffff, buffer_info_format = 0x34325258\<rparr>"

definition example_empty :: "unit DrmDisplayComposition" where
  "example_empty =
     \<lparr>comp_crtc = Some 0, comp_type = DRM_COMPOSITION_TYPE_EMPTY, comp_dpms_mode = 0,
      comp_display_mode = (), comp_geometry_changed = False, comp_layers = [],
      composition_planes = []\<rparr>"

definition example_frame :: "unit DrmDisplayComposition" where
  "example_frame = snd (SetLayers example_empty [example_layer, example_layer, example_layer] True)"

definition example_dpms :: "unit DrmDisplayComposition" where
  "example_dpms = snd (SetDpmsMode example_empty 3)"

text \<open>
  Three Planners whose state counts their calls. The first puts layers 1 and 0 on
  plane 1 and layer 2 on plane 2; the second fails; the third puts both layers on the
  cursor plane 3, which is in neither pool. None of them touches the pools.
\<close>

definition example_planner_ok :: "nat Planner" where
  "example_planner_ok ps to_composite crtc primary_planes overlay_planes =
     (0, [\<lparr>cp_type = kLayer, cp_plane = Some 1, source_layers = [1, 0]\<rparr>,
          \<lparr>cp_type = kLayer, cp_plane = Some 2, source_layers = [2]\<rparr>],
      primary_planes, overlay_planes, Suc ps)"

definition example_planner_fail :: "nat Planner" where
  "example_planner_fail ps to_composite crtc primary_planes overlay_planes =
     (- EINVAL, [], primary_planes, overlay_planes, Suc ps)"


text \<open>
  Two synthetic waits after the worker was enabled: the clock reads 683 ns, then
  740 ns; the second sleep is interrupted once before it ends.
\<close>

definition example_waits :: "((int \<times> int64 \<times> int64) \<times> (int \<times> int) list) list" where
  "example_waits = [((0, 0, 683), [(0, 0)]), ((0, 0, 740), [(- 1, 4), (0, 0)])]"

text \<open>
  A device with an HDMI connector that is not connected, a connected eDP panel and one
  writeback connector, as the enumeration leaves it: no display ids yet, no encoder
  chosen. Every encoder can drive CRTC 0 or CRTC 1. The second device is the first
  after the HDMI connector became display 0 on encoder 0 and CRTC 0.
\<close>

definition example_connector ::
  "32 word \<Rightarrow> 32 word \<Rightarrow> 32 word \<Rightarrow> drmModeConnection \<Rightarrow> enc_ref list \<Rightarrow> DrmConnector" where
  "example_connector i t n st encs =
     \<lparr>conn_id = i, conn_encoder = None, conn_display = - 1, conn_type = t, conn_type_id = n,
      conn_state = st, conn_possible_encoders = encs\<rparr>"

definition example_hdmi :: DrmConnector where
  "example_hdmi = example_connector 60 DRM_MODE_CONNECTOR_HDMIA 1 DRM_MODE_DISCONNECTED [0]"

definition example_edp :: DrmConnector where
  "example_edp = example_connector 61 DRM_MODE_CONNECTOR_eDP 1 DRM_MODE_CONNECTED [1]"

definition example_writeback :: DrmConnector where
  "example_writeback =
     example_connector 62 DRM_MODE_CONNECTOR_WRITEBACK 1 DRM_MODE_UNKNOWNCONNECTION [2]"

definition example_device :: DrmDevice where
  "example_device =
     \<lparr>connectors = [example_hdmi, example_edp],
      writeback_connectors = [example_writeback],
      encoders = (\<lambda>e. \<lparr>enc_id = 40, enc_crtc = None, enc_display = - 1,
                         enc_possible_crtcs = [0, 1]\<rparr>),
      crtcs = (\<lambda>c. \<lparr>crtc_id = 50, crtc_pipe = c, crtc_display = - 1\<rparr>),
      displays = []\<rparr>"

definition example_piped :: DrmDevice where
  "example_piped =
     example_device
       \<lparr>connectors :=
          [example_hdmi\<lparr>conn_encoder := Some 0, conn_display := 0\<rparr>, example_edp],
        encoders := (encoders example_device)
          (0 := \<lparr>enc_id = 40, enc_crtc = Some 0, enc_display = 0, enc_possible_crtcs = [0, 1]\<rparr>),
        crtcs := (crtcs example_device)
          (0 := \<lparr>crtc_id = 50, crtc_pipe = 0, crtc_display = 0\<rparr>)\<rparr>"

text \<open>A kernel that reports every connector as connected when asked again.\<close>

definition example_kernel :: "32 word \<Rightarrow> drmModeConnection option" where
  "example_kernel i = Some DRM_MODE_CONNECTED"

text \<open>One permitted \<open>std::partition\<close>: the stable one.\<close>

definition example_partition :: "(nat \<Rightarrow> bool) \<Rightarrow> nat list \<Rightarrow> nat list" where
  "example_partition P xs = filter P xs @ filter (\<lambda>x. \<not> P x) xs"

section \<open>Composition kinds\<close>

lemma validate_composition_type_iff:
  "validate_composition_type c des \<longleftrightarrow> comp_type c = DRM_COMPOSITION_TYPE_EMPTY \<or> comp_type c = des"
  by (simp add: validate_composition_type_def)

lemma EINVAL_nonzero: "EINVAL \<noteq> 0"
  by (simp add: EINVAL_def)

text \<open>
  C9. The three kinds of a composition exclude one another. Each of \<open>SetLayers\<close>,
  \<open>SetDpmsMode\<close> and \<open>SetDisplayMode\<close> returns 0 exactly when the composition is still
  empty or already of the kind being set, and then the composition has that kind;
  otherwise it returns \<open>-EINVAL\<close> and the composition (kind, layers, DPMS mode, display
  mode and everything else) is the one it was given.
\<close>

theorem setters_mutually_exclusive:
  fixes c :: "'mode DrmDisplayComposition"
  shows
  "(fst (SetLayers c ls g) = 0 \<longleftrightarrow>
      comp_type c = DRM_COMPOSITION_TYPE_EMPTY \<or> comp_type c = DRM_COMPOSITION_TYPE_FRAME) \<and>
   (fst (SetDpmsMode c d) = 0 \<longleftrightarrow>
      comp_type c = DRM_COMPOSITION_TYPE_EMPTY \<or> comp_type c = DRM_COMPOSITION_TYPE_DPMS) \<and>
   (fst (SetDisplayMode c m) = 0 \<longleftrightarrow>
      comp_type c = DRM_COMPOSITION_TYPE_EMPTY \<or> comp_type c = DRM_COMPOSITION_TYPE_MODESET) \<and>
   (fst (SetLayers c ls g) = 0 \<longrightarrow> comp_type (snd (SetLayers c ls g)) = DRM_COMPOSITION_TYPE_FRAME) \<and>
   (fst (SetDpmsMode c d) = 0 \<longrightarrow> comp_type (snd (SetDpmsMode c d)) = DRM_COMPOSITION_TYPE_DPMS) \<and>
   (fst (SetDisplayMode c m) = 0 \<longrightarrow>
      comp_type (snd (SetDisplayMode c m)) = DRM_COMPOSITION_TYPE_MODESET) \<and>
   (fst (SetLayers c ls g) \<noteq> 0 \<longrightarrow> SetLayers c ls g = (- EINVAL, c)) \<and>
   (fst (SetDpmsMode c d) \<noteq> 0 \<longrightarrow> SetDpmsMode c d = (- EINVAL, c)) \<and>
   (fst (SetDisplayMode c m) \<noteq> 0 \<longrightarrow> SetDisplayMode c m = (- EINVAL, c))"
  by (simp add: SetLayers_def SetDpmsMode_def SetDisplayMode_def
      validate_composition_type_iff EINVAL_nonzero)

theorem setters_mutually_exclusive_witness:
  "fst (SetDpmsMode example_empty 3) = 0 \<and>
   comp_type (snd (SetDpmsMode example_empty 3)) = DRM_COMPOSITION_TYPE_DPMS \<and>
   fst (SetLayers example_dpms [example_layer] True) \<noteq> 0 \<and>
   SetLayers example_dpms [example_layer] True = (- EINVAL, example_dpms) \<and>
   fst (SetDisplayMode example_dpms ()) \<noteq> 0 \<and>
   SetDisplayMode example_dpms () = (- EINVAL, example_dpms) \<and>
   fst (SetDpmsMode example_dpms 0) = 0"
  using setters_mutually_exclusive [of example_empty "[example_layer]" True 3 "()"]
    setters_mutually_exclusive [of example_dpms "[example_layer]" True 0 "()"]
  by (simp add: example_dpms_def example_empty_def SetDpmsMode_def SetLayers_def
      SetDisplayMode_def validate_composition_type_def EINVAL_def)

section \<open>Planning\<close>










text \<open>
  C10. A composition that is not a frame (empty, DPMS or modeset) is planned without
  any work: \<open>Plan\<close> returns 0, whatever the Planner is it is not consulted (its state is
  the one passed in), both pools and the composition are returned as they were, so a
  composition-plane list that was empty is still empty.
\<close>

theorem Plan_non_frame:
  assumes "comp_type c \<noteq> DRM_COMPOSITION_TYPE_FRAME"
  shows "Plan ProvisionPlanes planes ps c primary_planes overlay_planes =
           (0, c, primary_planes, overlay_planes, ps) \<and>
         (composition_planes c = [] \<longrightarrow>
            composition_planes
              (plan_composition (Plan ProvisionPlanes planes ps c primary_planes overlay_planes)) = [])"
  using assms by (simp add: Plan_def plan_composition_def)

theorem Plan_non_frame_witness:
  "comp_type example_dpms \<noteq> DRM_COMPOSITION_TYPE_FRAME \<and>
   composition_planes example_dpms = [] \<and>
   Plan example_planner_ok example_planes 0 example_dpms [1] [2] = (0, example_dpms, [1], [2], 0) \<and>
   Plan example_planner_fail example_planes 0 example_dpms [1] [2] = (0, example_dpms, [1], [2], 0) \<and>
   composition_planes
     (plan_composition (Plan example_planner_ok example_planes 0 example_dpms [1] [2])) = []"
proof -
  have k: "comp_type example_dpms \<noteq> DRM_COMPOSITION_TYPE_FRAME"
    by (simp add: example_dpms_def example_empty_def SetDpmsMode_def validate_composition_type_def)
  have e: "composition_planes example_dpms = []"
    by (simp add: example_dpms_def example_empty_def SetDpmsMode_def validate_composition_type_def)
  show ?thesis
    using k e Plan_non_frame [OF k, of example_planner_ok example_planes 0 "[1]" "[2]"]
      Plan_non_frame [OF k, of example_planner_fail example_planes 0 "[1]" "[2]"]
    by (simp add: plan_composition_def)
qed

text \<open>
  C2. When the Planner returns a status other than 0 for a frame composition, \<open>Plan\<close>
  returns that status and erases nothing: the two pools come back exactly as the
  Planner left them.
\<close>

theorem Plan_planner_failure:
  assumes "comp_type c = DRM_COMPOSITION_TYPE_FRAME"
    and "ProvisionPlanes ps (to_composite_of (comp_layers c)) (comp_crtc c)
           primary_planes overlay_planes = (ret, cps, primary1, overlay1, ps1)"
    and "ret \<noteq> 0"
  shows "Plan ProvisionPlanes planes ps c primary_planes overlay_planes =
           (ret, c\<lparr>composition_planes := cps\<rparr>, primary1, overlay1, ps1)"
  using assms by (simp add: Plan_def)

lemma example_frame_kind: "comp_type example_frame = DRM_COMPOSITION_TYPE_FRAME"
  by (simp add: example_frame_def example_empty_def SetLayers_def validate_composition_type_def)

theorem Plan_planner_failure_witness:
  "comp_type example_frame = DRM_COMPOSITION_TYPE_FRAME \<and>
   example_planner_fail 0 (to_composite_of (comp_layers example_frame)) (comp_crtc example_frame)
     [1] [2] = (- EINVAL, [], [1], [2], 1) \<and>
   - EINVAL \<noteq> 0 \<and>
   Plan example_planner_fail example_planes 0 example_frame [1] [2] =
     (- EINVAL, example_frame\<lparr>composition_planes := []\<rparr>, [1], [2], 1)"
proof -
  have p: "example_planner_fail 0 (to_composite_of (comp_layers example_frame))
             (comp_crtc example_frame) [1] [2] = (- EINVAL, [], [1], [2], 1)"
    by (simp add: example_planner_fail_def)
  have n: "- EINVAL \<noteq> 0" by (simp add: EINVAL_def)
  show ?thesis
    using example_frame_kind p n
      Plan_planner_failure [where ProvisionPlanes = example_planner_fail and
        planes = example_planes, OF example_frame_kind p n]
    by simp
qed





section \<open>Plane capabilities\<close>

lemma IsFormatSupported_in_set: "IsFormatSupported_in fs format \<longleftrightarrow> format \<in> set fs"
  by (induction fs) auto

text \<open>
  C3. \<open>IsValidForLayer\<close> is true exactly when all four rules hold: without a rotation
  property the layer's transform is the identity, with one the transform is a key of
  the plane's transform map; without an alpha property the layer's alpha is 0xffff;
  the layer's blend mode is a key of the plane's blend map or is \<open>kNone\<close> or
  \<open>kPreMult\<close>; the layer's format is one of the plane's formats.
\<close>

theorem IsValidForLayer_iff:
  "IsValidForLayer plane layer \<longleftrightarrow>
     (if \<not> property_present (rotation_property plane)
      then transform layer = kIdentity
      else transform layer \<in> dom (transform_enum_map plane)) \<and>
     (\<not> property_present (alpha_property plane) \<longrightarrow> alpha layer = 0xffff) \<and>
     (blending layer \<in> dom (blending_enum_map plane) \<or>
      blending layer = kNone \<or> blending layer = kPreMult) \<and>
     buffer_info_format layer \<in> set (formats plane)"
  by (auto simp add: IsValidForLayer_def IsFormatSupported_def IsFormatSupported_in_set
      property_present_def)

theorem IsValidForLayer_iff_witness:
  "\<not> property_present (rotation_property (example_plane 31 DRM_PLANE_TYPE_PRIMARY)) \<and>
   \<not> property_present (alpha_property (example_plane 31 DRM_PLANE_TYPE_PRIMARY)) \<and>
   alpha example_layer = 0xffff \<and>
   IsValidForLayer (example_plane 31 DRM_PLANE_TYPE_PRIMARY) example_layer \<and>
   \<not> IsValidForLayer (example_plane 31 DRM_PLANE_TYPE_PRIMARY) (example_layer\<lparr>transform := 4\<rparr>) \<and>
   \<not> IsValidForLayer (example_plane 31 DRM_PLANE_TYPE_PRIMARY) (example_layer\<lparr>alpha := 0x8000\<rparr>) \<and>
   \<not> IsValidForLayer (example_plane 31 DRM_PLANE_TYPE_PRIMARY) (example_layer\<lparr>blending := kCoverage\<rparr>)"
  using IsValidForLayer_iff [of "example_plane 31 DRM_PLANE_TYPE_PRIMARY" example_layer]
    IsValidForLayer_iff [of "example_plane 31 DRM_PLANE_TYPE_PRIMARY" "example_layer\<lparr>transform := 4\<rparr>"]
    IsValidForLayer_iff [of "example_plane 31 DRM_PLANE_TYPE_PRIMARY" "example_layer\<lparr>alpha := 0x8000\<rparr>"]
    IsValidForLayer_iff [of "example_plane 31 DRM_PLANE_TYPE_PRIMARY"
      "example_layer\<lparr>blending := kCoverage\<rparr>"]
  by (simp add: example_plane_def example_layer_def property_present_def kIdentity_def)

section \<open>Vsync phase\<close>



lemma int64_of_Some:
  assumes "- (2 ^ 63) \<le> v" and "v < 2 ^ 63"
  obtains w where "int64_of v = Some w" and "sint w = v"
proof
  show "int64_of v = Some (word_of_int v)" using assms by (simp add: int64_of_def)
  show "sint (word_of_int v :: int64) = v"
    using assms by (simp add: sint_sbintrunc' signed_take_bit_int_eq_self)
qed

lemma sint64_bounds: "- (2 ^ 63) \<le> sint (w :: int64)" "sint (w :: int64) < 2 ^ 63"
  using sint_ge [of w] sint_lt [of w] by simp_all

lemma trunc_div_nonneg:
  "0 \<le> a \<Longrightarrow> 0 < b \<Longrightarrow> sgn a * sgn b * (\<bar>a\<bar> div \<bar>b\<bar>) = a div (b :: int)"
  by (cases "a = 0") (simp_all add: sgn_if)

lemma phase_arith:
  fixes T l n :: int
  assumes "0 < T" and "l \<le> n"
  defines "q \<equiv> (n - l) div T"
  shows "0 \<le> q" and "T * q \<le> n - l" and "n < T * (q + 1) + l" and "T * (q + 1) + l \<le> n + T"
    and "(T * (q + 1) + l - l) mod T = 0" and "q \<le> n - l"
proof -
  have x: "T * q + (n - l) mod T = n - l" unfolding q_def by simp
  have m0: "0 \<le> (n - l) mod T" and m1: "(n - l) mod T < T" using assms(1) by simp_all
  show "0 \<le> q" unfolding q_def using assms by (simp add: pos_imp_zdiv_nonneg_iff)
  then have "q \<le> T * q" using assms(1) by (simp add: mult_le_cancel_right1)
  show "T * q \<le> n - l" using x m0 by linarith
  show "n < T * (q + 1) + l" using x m1 by (simp add: algebra_simps)
  show "T * (q + 1) + l \<le> n + T" using x m0 by (simp add: algebra_simps)
  show "(T * (q + 1) + l - l) mod T = 0" by simp
  show "q \<le> n - l" using \<open>q \<le> T * q\<close> \<open>T * q \<le> n - l\<close> by linarith
qed

lemma GetPhasedVSync_known:
  assumes T: "0 < sint frame_ns" and rng: "sint now + sint frame_ns < 2 ^ 63"
    and l0: "0 \<le> sint lt" and ln: "sint lt \<le> sint now"
  obtains r where "GetPhasedVSync lt frame_ns now = Some r"
    and "sint r = sint frame_ns * ((sint now - sint lt) div sint frame_ns + 1) + sint lt"
proof -
  let ?T = "sint frame_ns" and ?l = "sint lt" and ?n = "sint now"
  let ?q = "(?n - ?l) div ?T"
  note pa = phase_arith [OF T ln]
  note b = sint64_bounds
  obtain d where d: "sub64 now lt = Some d" "sint d = ?n - ?l"
    using int64_of_Some [of "?n - ?l"] l0 ln b [of now] unfolding sub64_def by force
  have "sgn (sint d) * sgn ?T * (\<bar>sint d\<bar> div \<bar>?T\<bar>) = ?q"
    using trunc_div_nonneg [of "sint d" ?T] d(2) ln T by simp
  moreover have "- (2 ^ 63) \<le> ?q" "?q < 2 ^ 63" using pa(1,6) b [of now] l0 by linarith+
  ultimately obtain q where q: "div64 d frame_ns = Some q" "sint q = ?q"
    using int64_of_Some [of ?q] T unfolding div64_def by force
  have "- (2 ^ 63) \<le> ?q + 1" "?q + 1 < 2 ^ 63" using pa(1,6) rng T l0 by linarith+
  then obtain q1 where q1: "add64 q 1 = Some q1" "sint q1 = ?q + 1"
    using int64_of_Some [of "?q + 1"] q(2) unfolding add64_def by force
  have m0: "0 \<le> ?T * (?q + 1)" using T pa(1) by simp
  have "- (2 ^ 63) \<le> ?T * (?q + 1)" "?T * (?q + 1) < 2 ^ 63"
    using m0 pa(4) rng l0 by linarith+
  then obtain m where m: "mul64 frame_ns q1 = Some m" "sint m = ?T * (?q + 1)"
    using int64_of_Some [of "?T * (?q + 1)"] q1(2) unfolding mul64_def by force
  have "- (2 ^ 63) \<le> ?T * (?q + 1) + ?l" "?T * (?q + 1) + ?l < 2 ^ 63"
    using m0 pa(4) rng l0 by linarith+
  then obtain r where r: "add64 m lt = Some r" "sint r = ?T * (?q + 1) + ?l"
    using int64_of_Some [of "?T * (?q + 1) + ?l"] m(2) unfolding add64_def by force
  have "GetPhasedVSync lt frame_ns now = Some r"
    using l0 d(1) q(1) q1(1) m(1) r(1) by (simp add: GetPhasedVSync_def)
  then show ?thesis using r(2) that by blast
qed

lemma GetPhasedVSync_unknown:
  assumes T: "0 < sint frame_ns" and rng: "sint now + sint frame_ns < 2 ^ 63"
    and l0: "sint lt < 0"
  obtains r where "GetPhasedVSync lt frame_ns now = Some r"
    and "sint r = sint now + sint frame_ns"
proof -
  have "- (2 ^ 63) \<le> sint now + sint frame_ns" using sint64_bounds [of now] T by linarith
  then obtain r where "add64 now frame_ns = Some r" "sint r = sint now + sint frame_ns"
    using int64_of_Some [of "sint now + sint frame_ns"] rng unfolding add64_def by force
  then show ?thesis using that l0 by (simp add: GetPhasedVSync_def)
qed



lemma narrow_widen_id:
  fixes d :: int64
  assumes "0 \<le> sint d" and "sint d < 2 ^ 31"
  shows "(scast (ucast d :: 32 word) :: int64) = d"
proof (rule signed_word_eqI [where ?'a = int])
  have u: "uint d = sint d"
    using assms by (simp add: uint_sint take_bit_int_eq_self)
  have "sint (ucast d :: 32 word) = signed_take_bit 31 (uint d)"
    using signed_ucast_eq [where ?'a = int, of d, where ?'c = 32] by simp
  also have "\<dots> = sint d"
    using assms u by (simp add: signed_take_bit_int_eq_self)
  finally have n: "sint (ucast d :: 32 word) = sint d" .
  have "sint (scast (ucast d :: 32 word) :: int64) = signed_take_bit 63 (sint (ucast d :: 32 word))"
    using signed_scast_eq [where ?'a = int, of "ucast d :: 32 word", where ?'c = 64] by simp
  also have "\<dots> = sint d"
    using assms n by (simp add: signed_take_bit_int_eq_self)
  finally show "sint (scast (ucast d :: 32 word) :: int64) = sint d" .
qed


lemma sint_kOneSecondNs: "sint kOneSecondNs = 1000000000"
  by (simp add: kOneSecondNs_def)

lemma SyntheticWaitVBlank_ok:
  assumes sec: "0 \<le> sint tv_sec" and nsec: "0 \<le> sint tv_nsec" "sint tv_nsec < 1000000000"
    and rng: "timespec_ns tv_sec tv_nsec < 2 ^ 63"
    and now: "sint now = timespec_ns tv_sec tv_nsec"
    and p: "GetPhasedVSync lt frame_ns now = Some p" and p0: "0 \<le> sint p"
    and sl: "nanosleep_loop sleeps = Some r"
  shows "SyntheticWaitVBlank lt frame_ns (0, tv_sec, tv_nsec) sleeps =
           Some (if r \<noteq> 0 then (r, None) else (0, Some p))"
proof -
  note b = sint64_bounds
  let ?G = "1000000000 :: int"
  have s_rng: "- (2 ^ 63) \<le> sint tv_sec * ?G" "sint tv_sec * ?G < 2 ^ 63"
    using sec nsec rng by (simp_all add: timespec_ns_def)
  obtain s where s: "mul64 tv_sec kOneSecondNs = Some s" "sint s = sint tv_sec * ?G"
    using int64_of_Some [OF s_rng] unfolding mul64_def sint_kOneSecondNs by force
  have "- (2 ^ 63) \<le> sint s + sint tv_nsec" "sint s + sint tv_nsec < 2 ^ 63"
    using s(2) sec nsec rng by (simp_all add: timespec_ns_def)
  then obtain n where n: "add64 s tv_nsec = Some n" "sint n = sint s + sint tv_nsec"
    using int64_of_Some [of "sint s + sint tv_nsec"] unfolding add64_def by force
  have "sint n = sint now" using n(2) s(2) now by (simp add: timespec_ns_def)
  then have nn: "n = now" by (rule signed_word_eqI [where ?'a = int])
  let ?q = "sint p div ?G"
  have q0: "0 \<le> ?q" using p0 by (simp add: pos_imp_zdiv_nonneg_iff)
  have qm: "?G * ?q + sint p mod ?G = sint p" by simp
  have m0: "0 \<le> sint p mod ?G" and m1: "sint p mod ?G < ?G" by simp_all
  have "sgn (sint p) * sgn (sint kOneSecondNs) * (\<bar>sint p\<bar> div \<bar>sint kOneSecondNs\<bar>) = ?q"
    using trunc_div_nonneg [of "sint p" ?G] p0 by (simp add: sint_kOneSecondNs)
  moreover have "- (2 ^ 63) \<le> ?q" "?q < 2 ^ 63" using q0 qm m0 b [of p] by linarith+
  ultimately obtain sec' where sec': "div64 p kOneSecondNs = Some sec'" "sint sec' = ?q"
    using int64_of_Some [of ?q] unfolding div64_def by (force simp: sint_kOneSecondNs)
  have "- (2 ^ 63) \<le> ?q * ?G" "?q * ?G < 2 ^ 63" using q0 qm m0 b [of p] by linarith+
  then obtain sn where sn: "mul64 sec' kOneSecondNs = Some sn" "sint sn = ?q * ?G"
    using int64_of_Some [of "?q * ?G"] sec'(2) unfolding mul64_def sint_kOneSecondNs by force
  have dv: "sint p - sint sn = sint p mod ?G" using sn(2) qm by linarith
  then have "- (2 ^ 63) \<le> sint p - sint sn" "sint p - sint sn < 2 ^ 63"
    using m0 m1 by simp_all
  then obtain d where d: "sub64 p sn = Some d" "sint d = sint p - sint sn"
    using int64_of_Some [of "sint p - sint sn"] unfolding sub64_def by force
  have "0 \<le> sint d" "sint d < 2 ^ 31" using d(2) dv m0 m1 by simp_all
  then have cast: "(scast (ucast d :: 32 word) :: int64) = d" by (rule narrow_widen_id)
  have "sint sn + sint d = sint p" using d(2) by simp
  then have "- (2 ^ 63) \<le> sint sn + sint d" "sint sn + sint d < 2 ^ 63"
    using b [of p] by simp_all
  then obtain t where t: "add64 sn d = Some t" "sint t = sint sn + sint d"
    using int64_of_Some [of "sint sn + sint d"] unfolding add64_def by force
  have "sint t = sint p" using t(2) d(2) by simp
  then have tp: "t = p" by (rule signed_word_eqI [where ?'a = int])
  show ?thesis
    using s(1) n(1) nn p sec'(1) sn(1) d(1) cast sl t(1) tp
    by (simp add: SyntheticWaitVBlank_def)
qed

lemma dvd_diff_trans:
  fixes T :: int
  shows "T dvd a - l \<Longrightarrow> T dvd b - a \<Longrightarrow> T dvd b - l"
  using dvd_add [of T "a - l" "b - a"] by simp

lemma synthetic_timestamps_phase:
  assumes T: "0 < sint frame_ns"
  shows "clock_follows (sint lt) (sint frame_ns) ios \<Longrightarrow>
         \<exists>ts. synthetic_timestamps lt frame_ns ios = Some ts \<and>
              (\<forall>t \<in> set ts. 0 \<le> sint t) \<and>
              (0 \<le> sint lt \<longrightarrow> (\<forall>t \<in> set ts. sint frame_ns dvd sint t - sint lt)) \<and>
              (\<forall>t \<in> set ts. sint frame_ns dvd sint t - sint (hd ts))"
proof (induction ios arbitrary: lt)
  case Nil
  then show ?case by simp
next
  case (Cons io rest)
  obtain ret tv_sec tv_nsec sleeps where io: "io = ((ret, tv_sec, tv_nsec), sleeps)"
    by (metis prod.exhaust)
  show ?case
  proof (cases "ret = 0")
    case False
    then have "clock_follows (sint lt) (sint frame_ns) rest"
      using Cons.prems io by simp
    from Cons.IH [OF this] False io show ?thesis
      by (simp add: SyntheticWaitVBlank_def)
  next
    case True
    let ?n = "timespec_ns tv_sec tv_nsec"
    from Cons.prems io True
    have c: "0 \<le> sint tv_sec" "0 \<le> sint tv_nsec" "sint tv_nsec < 1000000000"
      "?n + sint frame_ns < 2 ^ 63" "sint lt \<le> ?n" "nanosleep_loop sleeps \<noteq> None"
      and rest: "clock_follows
             (if nanosleep_loop sleeps = Some 0
              then next_vsync (sint lt) (sint frame_ns) ?n
              else sint lt) (sint frame_ns) rest"
      by simp_all
    have n0: "0 \<le> ?n" using c(1,2) by (simp add: timespec_ns_def)
    have nr: "- (2 ^ 63) \<le> ?n" "?n < 2 ^ 63" using n0 c(4) T by linarith+
    obtain now :: int64 where now: "sint now = ?n"
      using int64_of_Some [OF nr] by blast
    obtain r where r: "nanosleep_loop sleeps = Some r" using c(6) by blast
    have rng: "sint now + sint frame_ns < 2 ^ 63" using now c(4) by simp
    obtain p where p: "GetPhasedVSync lt frame_ns now = Some p"
      and pv: "sint p = next_vsync (sint lt) (sint frame_ns) ?n"
      and pgt: "sint now < sint p"
      and pdv: "0 \<le> sint lt \<longrightarrow> sint frame_ns dvd sint p - sint lt"
    proof (cases "sint lt < 0")
      case True
      from GetPhasedVSync_unknown [OF T rng True] obtain x
        where "GetPhasedVSync lt frame_ns now = Some x" "sint x = sint now + sint frame_ns"
        by blast
      then show ?thesis using that True T now by (simp add: next_vsync_def)
    next
      case False
      then have l0: "0 \<le> sint lt" by simp
      have ln: "sint lt \<le> sint now" using c(5) now by simp
      from GetPhasedVSync_known [OF T rng l0 ln] obtain x
        where x: "GetPhasedVSync lt frame_ns now = Some x"
          "sint x = sint frame_ns * ((sint now - sint lt) div sint frame_ns + 1) + sint lt"
        by blast
      have "sint now < sint x" using phase_arith(3) [OF T ln] x(2) by simp
      moreover have "sint frame_ns dvd sint x - sint lt" using x(2) by simp
      ultimately show ?thesis using that x False now by (simp add: next_vsync_def)
    qed
    have p0: "0 \<le> sint p" using pgt now n0 by simp
    have step: "SyntheticWaitVBlank lt frame_ns (0, tv_sec, tv_nsec) sleeps =
           Some (if r \<noteq> 0 then (r, None) else (0, Some p))"
      by (rule SyntheticWaitVBlank_ok [OF c(1,2,3) nr(2) now p p0 r])
    show ?thesis
    proof (cases "r = 0")
      case False
      then have "clock_follows (sint lt) (sint frame_ns) rest" using rest r by simp
      from Cons.IH [OF this] step False io True show ?thesis by simp
    next
      case r0: True
      then have "clock_follows (sint p) (sint frame_ns) rest" using rest r pv by simp
      from Cons.IH [OF this] p0 obtain ts where ts:
        "synthetic_timestamps p frame_ns rest = Some ts"
        "\<forall>t \<in> set ts. 0 \<le> sint t"
        "\<forall>t \<in> set ts. sint frame_ns dvd sint t - sint p"
        by blast
      have run: "synthetic_timestamps lt frame_ns (io # rest) = Some (p # ts)"
        using step r0 io True ts(1) by simp
      have "\<forall>t \<in> set (p # ts). sint frame_ns dvd sint t - sint lt" if "0 \<le> sint lt"
        using that pdv ts(3) dvd_diff_trans [of "sint frame_ns" "sint p" "sint lt"] by auto
      then show ?thesis using run p0 ts(2,3) by simp
    qed
  qed
qed

text \<open>
  C8, as the code has it. Let the period be positive and let one period after the
  current time still fit in 64 bits. With a last timestamp that is known (not negative)
  and not later than the current time, \<open>GetPhasedVSync\<close> returns
  \<open>frame_ns * ((now - last) div frame_ns + 1) + last\<close> (\<open>div\<close> rounds down), a time
  later than the current time whose distance from the last timestamp is a multiple of
  the period. With no last timestamp it returns the current time plus the period.
  Hence, on a run of synthetic waits that starts with no last timestamp, reads a
  monotonic clock and keeps its period, every timestamp handed out differs from the
  first by a multiple of the period.
\<close>
theorem GetPhasedVSync_phase_locked:
  assumes "0 < sint frame_ns" and "sint now + sint frame_ns < 2 ^ 63"
  shows "(0 \<le> sint lt \<and> sint lt \<le> sint now \<longrightarrow>
            (\<exists>r. GetPhasedVSync lt frame_ns now = Some r \<and>
                 sint r = sint frame_ns * ((sint now - sint lt) div sint frame_ns + 1) + sint lt \<and>
                 sint now < sint r \<and>
                 (sint r - sint lt) mod sint frame_ns = 0)) \<and>
         (sint lt < 0 \<longrightarrow>
            (\<exists>r. GetPhasedVSync lt frame_ns now = Some r \<and> sint r = sint now + sint frame_ns)) \<and>
         (\<forall>waits. clock_follows (- 1) (sint frame_ns) waits \<longrightarrow>
            (\<exists>ts. synthetic_timestamps (- 1) frame_ns waits = Some ts \<and>
                  (\<forall>t \<in> set ts. (sint t - sint (hd ts)) mod sint frame_ns = 0)))"
proof (intro conjI impI allI)
  assume a: "0 \<le> sint lt \<and> sint lt \<le> sint now"
  then have l0: "0 \<le> sint lt" and ln: "sint lt \<le> sint now" by simp_all
  from GetPhasedVSync_known [OF assms l0 ln] obtain r
    where r: "GetPhasedVSync lt frame_ns now = Some r"
      "sint r = sint frame_ns * ((sint now - sint lt) div sint frame_ns + 1) + sint lt"
    by blast
  have gt: "sint now < sint r" using phase_arith(3) [OF assms(1) ln] r(2) by simp
  have cg: "(sint r - sint lt) mod sint frame_ns = 0" using r(2) by simp
  show "\<exists>r. GetPhasedVSync lt frame_ns now = Some r \<and>
                 sint r = sint frame_ns * ((sint now - sint lt) div sint frame_ns + 1) + sint lt \<and>
                 sint now < sint r \<and> (sint r - sint lt) mod sint frame_ns = 0"
    using r gt cg by (intro exI [where x = r]) simp
next
  assume "sint lt < 0"
  from GetPhasedVSync_unknown [OF assms this]
  show "\<exists>r. GetPhasedVSync lt frame_ns now = Some r \<and> sint r = sint now + sint frame_ns"
    by blast
next
  fix waits
  assume "clock_follows (- 1) (sint frame_ns) waits"
  then have "clock_follows (sint (- 1 :: int64)) (sint frame_ns) waits" by simp
  from synthetic_timestamps_phase [OF assms(1) this]
  show "\<exists>ts. synthetic_timestamps (- 1) frame_ns waits = Some ts \<and>
             (\<forall>t \<in> set ts. (sint t - sint (hd ts)) mod sint frame_ns = 0)"
    by (auto simp: mod_eq_0_iff_dvd)
qed

theorem GetPhasedVSync_phase_locked_witness:
  "0 < sint (50 :: int64) \<and> sint (683 :: int64) + sint (50 :: int64) < 2 ^ 63 \<and>
   0 \<le> sint (137 :: int64) \<and> sint (137 :: int64) \<le> sint (683 :: int64) \<and>
   GetPhasedVSync 137 50 683 = Some 687 \<and>
   sint (- 1 :: int64) < 0 \<and>
   GetPhasedVSync (- 1) 50 683 = Some 733 \<and>
   clock_follows (- 1) (sint (50 :: int64)) example_waits \<and>
   synthetic_timestamps (- 1) 50 example_waits = Some [733, 783]"
proof -
  have h1: "0 < sint (50 :: int64)" by simp
  have h2: "sint (683 :: int64) + sint (50 :: int64) < 2 ^ 63" by simp
  have g1: "GetPhasedVSync 137 50 683 = Some 687"
    by (simp add: GetPhasedVSync_def add64_def sub64_def mul64_def div64_def int64_of_def)
  have g2: "GetPhasedVSync (- 1) 50 683 = Some 733"
    by (simp add: GetPhasedVSync_def add64_def sub64_def mul64_def div64_def int64_of_def)
  have cf: "clock_follows (- 1) (sint (50 :: int64)) example_waits"
    by (simp add: example_waits_def timespec_ns_def next_vsync_def EINTR_def)
  have g3: "GetPhasedVSync 733 50 740 = Some 783"
    by (simp add: GetPhasedVSync_def add64_def sub64_def mul64_def div64_def int64_of_def)
  have w1: "SyntheticWaitVBlank (- 1) 50 (0, 0, 683) [(0, 0)] = Some (0, Some 733)"
    by (simp add: SyntheticWaitVBlank_def g2 add64_def sub64_def mul64_def div64_def
        int64_of_def kOneSecondNs_def)
  have w2: "SyntheticWaitVBlank 733 50 (0, 0, 740) [(- 1, 4), (0, 0)] = Some (0, Some 783)"
    by (simp add: SyntheticWaitVBlank_def g3 add64_def sub64_def mul64_def div64_def
        int64_of_def kOneSecondNs_def EINTR_def)
  have run: "synthetic_timestamps (- 1) 50 example_waits = Some [733, 783]"
    by (simp add: example_waits_def w1 w2)
  show ?thesis
    using h1 h2 g1 g2 cf run GetPhasedVSync_phase_locked [OF h1 h2, of 137]
    by simp
qed

text \<open>
  Without the bound on the current time C8 does not hold: from the last timestamp 0,
  with a period of 2 ns and the largest 64-bit time, the formula gives 2^63, the
  multiplication overflows, and the call has no defined result.
\<close>

theorem GetPhasedVSync_overflow_counterexample:
  "0 < sint (2 :: int64) \<and> 0 \<le> sint (0 :: int64) \<and>
   sint (0 :: int64) \<le> sint (9223372036854775807 :: int64) \<and>
   sint (2 :: int64) * ((sint (9223372036854775807 :: int64) - sint (0 :: int64)) div
      sint (2 :: int64) + 1) + sint (0 :: int64) = 9223372036854775808 \<and>
   GetPhasedVSync 0 2 9223372036854775807 = None"
  by (simp add: GetPhasedVSync_def add64_def sub64_def mul64_def div64_def int64_of_def)

section \<open>Binding an encoder\<close>


lemma bind_calls_eq:
  "enc_set_crtc (crtc_set_display dev c display) enc c = bound_to dev display enc c"
  by (simp add: enc_set_crtc_def crtc_set_display_def bound_to_def)

lemma try_possible_crtcs_find:
  "try_possible_crtcs dev display enc cs =
     (case List.find (\<lambda>c. Some c \<noteq> enc_crtc (encoders dev enc) \<and>
                          crtc_can_bind (crtcs dev c) display) cs of
        Some c \<Rightarrow> (0, bound_to dev display enc c)
      | None \<Rightarrow> (- EAGAIN, dev))"
  by (induction cs) (auto simp: bind_calls_eq)

lemma TryEncoderForDisplay_eq:
  "TryEncoderForDisplay dev display enc =
     (case chosen_crtc dev display enc of
        Some c \<Rightarrow> (0, bound_to dev display enc c)
      | None \<Rightarrow> (- EAGAIN, dev))"
  by (simp add: TryEncoderForDisplay_def chosen_crtc_def try_possible_crtcs_find bind_calls_eq
      split: option.splits)

lemma chosen_crtc_can_bind:
  "chosen_crtc dev display enc = Some c \<Longrightarrow> crtc_can_bind (crtcs dev c) display"
  by (auto simp: chosen_crtc_def Let_def find_Some_iff split: if_splits option.splits)

text \<open>
  C6. \<open>TryEncoderForDisplay\<close> binds the CRTC that the claim names: the encoder's current
  CRTC when it can bind the display, otherwise the first possible CRTC other than the
  current one that is unbound or bound to this display. It returns 0, that CRTC then
  carries the display and is the encoder's CRTC, and nothing else in the device has
  changed. When there is no such CRTC it returns \<open>-EAGAIN\<close> and the device is as it was.
\<close>

theorem TryEncoderForDisplay_binds_chosen:
  "TryEncoderForDisplay dev display enc =
     (case chosen_crtc dev display enc of
        Some c \<Rightarrow> (0, bound_to dev display enc c)
      | None \<Rightarrow> (- EAGAIN, dev)) \<and>
   (\<forall>c. chosen_crtc dev display enc = Some c \<longrightarrow>
      crtc_can_bind (crtcs dev c) display \<and>
      crtc_display (crtcs (bound_to dev display enc c) c) = display \<and>
      enc_crtc (encoders (bound_to dev display enc c) enc) = Some c \<and>
      (\<forall>c'. c' \<noteq> c \<longrightarrow> crtcs (bound_to dev display enc c) c' = crtcs dev c') \<and>
      (\<forall>e'. e' \<noteq> enc \<longrightarrow> encoders (bound_to dev display enc c) e' = encoders dev e') \<and>
      connectors (bound_to dev display enc c) = connectors dev \<and>
      writeback_connectors (bound_to dev display enc c) = writeback_connectors dev)"
  using TryEncoderForDisplay_eq [of dev display enc] chosen_crtc_can_bind [of dev display enc]
  by (simp add: bound_to_def)

theorem TryEncoderForDisplay_binds_chosen_witness:
  "chosen_crtc example_piped 1 1 = Some 1 \<and>
   fst (TryEncoderForDisplay example_piped 1 1) = 0 \<and>
   crtc_display (crtcs (snd (TryEncoderForDisplay example_piped 1 1)) 1) = 1 \<and>
   enc_crtc (encoders (snd (TryEncoderForDisplay example_piped 1 1)) 1) = Some 1 \<and>
   chosen_crtc example_piped 0 0 = Some 0 \<and>
   fst (TryEncoderForDisplay example_piped 0 0) = 0 \<and>
   chosen_crtc (bound_to example_piped 1 1 1) 2 2 = None \<and>
   TryEncoderForDisplay (bound_to example_piped 1 1 1) 2 2 =
     (- EAGAIN, bound_to example_piped 1 1 1)"
  using TryEncoderForDisplay_binds_chosen [of example_piped 1 1]
    TryEncoderForDisplay_binds_chosen [of example_piped 0 0]
    TryEncoderForDisplay_binds_chosen [of "bound_to example_piped 1 1 1" 2 2]
  by (simp add: chosen_crtc_def bound_to_def example_piped_def example_device_def
      crtc_can_bind_def)


section \<open>Writeback connectors\<close>

lemma first_with_display_None:
  "first_with_display ws d = None \<longleftrightarrow> (\<forall>w \<in> set ws. conn_display w \<noteq> d)"
  by (induction ws) auto

lemma distinct_filter_nth:
  "distinct (filter P ys) \<longleftrightarrow>
     (\<forall>i < length ys. \<forall>j < length ys. P (ys ! i) \<longrightarrow> ys ! i = ys ! j \<longrightarrow> i = j)"
proof (induction ys)
  case Nil
  then show ?case by simp
next
  case (Cons y ys)
  show ?case
  proof
    assume d: "distinct (filter P (y # ys))"
    then have d': "distinct (filter P ys)" by (simp split: if_splits)
    have ny: "P y \<Longrightarrow> y \<notin> set ys" using d by auto
    show "\<forall>i < length (y # ys). \<forall>j < length (y # ys).
            P ((y # ys) ! i) \<longrightarrow> (y # ys) ! i = (y # ys) ! j \<longrightarrow> i = j"
    proof (intro allI impI)
      fix i j
      assume ij: "i < length (y # ys)" "j < length (y # ys)"
        and p: "P ((y # ys) ! i)" and e: "(y # ys) ! i = (y # ys) ! j"
      show "i = j"
      proof (cases i)
        case 0
        then show ?thesis using ij p e ny by (cases j) auto
      next
        case (Suc i')
        show ?thesis
        proof (cases j)
          case 0
          then show ?thesis using Suc ij p e ny by auto
        next
          case (Suc j')
          then show ?thesis using \<open>i = Suc i'\<close> ij p e d' Cons.IH by auto
        qed
      qed
    qed
  next
    assume a: "\<forall>i < length (y # ys). \<forall>j < length (y # ys).
            P ((y # ys) ! i) \<longrightarrow> (y # ys) ! i = (y # ys) ! j \<longrightarrow> i = j"
    have "\<forall>i < length ys. \<forall>j < length ys. P (ys ! i) \<longrightarrow> ys ! i = ys ! j \<longrightarrow> i = j"
    proof (intro allI impI)
      fix i j assume "i < length ys" "j < length ys" "P (ys ! i)" "ys ! i = ys ! j"
      then show "i = j" using a [rule_format, of "Suc i" "Suc j"] by simp
    qed
    then have d': "distinct (filter P ys)" using Cons.IH by simp
    have "y \<notin> set ys" if "P y"
    proof
      assume "y \<in> set ys"
      then obtain j where "j < length ys" "ys ! j = y" by (auto simp: in_set_conv_nth)
      then show False using a [rule_format, of 0 "Suc j"] that by simp
    qed
    then show "distinct (filter P (y # ys))" using d' by auto
  qed
qed


lemma bind_writeback_fields:
  "writeback_connectors (bind_writeback io dev c k w enc) =
     (writeback_connectors dev)
       [k := snd (UpdateModes io (w\<lparr>conn_encoder := Some enc,
                                      conn_display := crtc_display (crtcs dev c)\<rparr>))]"
  "connectors (bind_writeback io dev c k w enc) = connectors dev"
  "crtcs (bind_writeback io dev c k w enc) = crtcs dev"
  "displays (bind_writeback io dev c k w enc) = displays dev"
  by (simp_all add: bind_writeback_def enc_set_crtc_def Let_def)

lemma UpdateModes_display: "conn_display (snd (UpdateModes io w)) = conn_display w"
  by (simp add: UpdateModes_def split: option.splits)

lemma attach_loop_cases:
  "attach_loop io dev c k rest = (ret, dev') \<Longrightarrow>
     (ret = - EINVAL \<and> dev' = dev) \<or>
     (ret = 0 \<and> (\<exists>j enc. j < length rest \<and> conn_display (rest ! j) < 0 \<and>
                    dev' = bind_writeback io dev c (k + j) (rest ! j) enc))"
proof (induction rest arbitrary: k)
  case Nil
  then show ?case by simp
next
  case (Cons w rest)
  show ?case
  proof (cases "conn_display w \<ge> 0 \<or>
                writeback_enc_found dev c (conn_possible_encoders w) = None")
    case True
    then have "attach_loop io dev c (Suc k) rest = (ret, dev')"
      using Cons.prems by (auto split: if_splits)
    from Cons.IH [OF this] show ?thesis
    proof
      assume "ret = - EINVAL \<and> dev' = dev"
      then show ?thesis by simp
    next
      assume "ret = 0 \<and> (\<exists>j enc. j < length rest \<and> conn_display (rest ! j) < 0 \<and>
                    dev' = bind_writeback io dev c (Suc k + j) (rest ! j) enc)"
      then obtain j enc where j: "ret = 0" "j < length rest" "conn_display (rest ! j) < 0"
        "dev' = bind_writeback io dev c (Suc k + j) (rest ! j) enc" by blast
      then have "Suc j < length (w # rest) \<and> conn_display ((w # rest) ! Suc j) < 0 \<and>
                 dev' = bind_writeback io dev c (k + Suc j) ((w # rest) ! Suc j) enc"
        by simp
      then show ?thesis using j(1) by blast
    qed
  next
    case False
    then obtain enc where e: "writeback_enc_found dev c (conn_possible_encoders w) = Some enc"
      and neg: "conn_display w < 0" by auto
    then have "ret = 0" "dev' = bind_writeback io dev c k w enc"
      using Cons.prems by auto
    then have "0 < length (w # rest) \<and> conn_display ((w # rest) ! 0) < 0 \<and>
               dev' = bind_writeback io dev c (k + 0) ((w # rest) ! 0) enc"
      using neg by simp
    then show ?thesis using \<open>ret = 0\<close> by blast
  qed
qed

text \<open>
  C7. Let the display connector have an encoder and that encoder a CRTC, bound to
  display \<open>d\<close>. When some writeback connector already holds \<open>d\<close>, \<open>AttachWriteback\<close>
  returns \<open>-EINVAL\<close>. Whenever it returns an error the error is \<open>-EINVAL\<close> and the device
  is unchanged. When it returns 0, exactly one writeback connector has changed, it held
  no display id before and holds \<open>d\<close> now. If no display id was held by two writeback
  connectors before the call, none is after it.
\<close>

theorem AttachWriteback_one_per_display:
  assumes e: "conn_encoder display_conn = Some enc"
    and c: "enc_crtc (encoders dev enc) = Some display_crtc"
  shows "\<exists>ret dev'. AttachWriteback io dev display_conn = Some (ret, dev') \<and>
           (GetWritebackConnectorForDisplay dev (crtc_display (crtcs dev display_crtc)) \<noteq> None
              \<longrightarrow> ret = - EINVAL) \<and>
           (ret \<noteq> 0 \<longrightarrow> ret = - EINVAL \<and> dev' = dev) \<and>
           (ret = 0 \<longrightarrow>
              (\<exists>k w. k < length (writeback_connectors dev) \<and>
                    conn_display (writeback_connectors dev ! k) < 0 \<and>
                    writeback_connectors dev' = (writeback_connectors dev)[k := w] \<and>
                    conn_display w = crtc_display (crtcs dev display_crtc))) \<and>
           (one_writeback_per_display dev \<longrightarrow> one_writeback_per_display dev')"
proof -
  let ?d = "crtc_display (crtcs dev display_crtc)"
  let ?ws = "writeback_connectors dev"
  show ?thesis
  proof (cases "GetWritebackConnectorForDisplay dev ?d \<noteq> None")
    case True
    then have "AttachWriteback io dev display_conn = Some (- EINVAL, dev)"
      using e c by (simp add: AttachWriteback_def)
    then show ?thesis using True EINVAL_nonzero by simp
  next
    case False
    then have none: "\<forall>w \<in> set ?ws. conn_display w \<noteq> ?d"
      by (simp add: GetWritebackConnectorForDisplay_def first_with_display_None)
    obtain ret dev' where l: "attach_loop io dev display_crtc 0 ?ws = (ret, dev')"
      by (cases "attach_loop io dev display_crtc 0 ?ws")
    have a: "AttachWriteback io dev display_conn = Some (ret, dev')"
      using e c False l by (simp add: AttachWriteback_def)
    from attach_loop_cases [OF l] show ?thesis
    proof
      assume "ret = - EINVAL \<and> dev' = dev"
      then show ?thesis using a False EINVAL_nonzero by simp
    next
      assume "ret = 0 \<and> (\<exists>j enc. j < length ?ws \<and> conn_display (?ws ! j) < 0 \<and>
                    dev' = bind_writeback io dev display_crtc (0 + j) (?ws ! j) enc)"
      then obtain j wenc where j: "ret = 0" "j < length ?ws" "conn_display (?ws ! j) < 0"
        "dev' = bind_writeback io dev display_crtc j (?ws ! j) wenc" by auto
      let ?w = "snd (UpdateModes io ((?ws ! j)\<lparr>conn_encoder := Some wenc, conn_display := ?d\<rparr>))"
      have ws': "writeback_connectors dev' = ?ws[j := ?w]"
        using j(4) by (simp add: bind_writeback_fields)
      have wd: "conn_display ?w = ?d" by (simp add: UpdateModes_display)
      have inv: "one_writeback_per_display dev'" if i: "one_writeback_per_display dev"
      proof -
        let ?f = "map conn_display ?ws"
        have old: "\<forall>a < length ?f. \<forall>b < length ?f. 0 \<le> ?f ! a \<longrightarrow> ?f ! a = ?f ! b \<longrightarrow> a = b"
          using i unfolding one_writeback_per_display_def distinct_filter_nth by blast
        have nd: "\<forall>a < length ?ws. conn_display (?ws ! a) \<noteq> ?d" using none by simp
        have "\<forall>a < length (?f[j := ?d]). \<forall>b < length (?f[j := ?d]).
                0 \<le> ?f[j := ?d] ! a \<longrightarrow> ?f[j := ?d] ! a = ?f[j := ?d] ! b \<longrightarrow> a = b"
        proof (intro allI impI)
          fix a b
          assume ab: "a < length (?f[j := ?d])" "b < length (?f[j := ?d])"
            and p: "0 \<le> ?f[j := ?d] ! a" and q: "?f[j := ?d] ! a = ?f[j := ?d] ! b"
          show "a = b"
          proof (cases "a = j")
            case True
            then show ?thesis using ab q nd j(2) by (cases "b = j") (auto simp: nth_list_update)
          next
            case False
            show ?thesis
            proof (cases "b = j")
              case True
              then show ?thesis using False ab q nd j(2) by (auto simp: nth_list_update)
            next
              case bj: False
              then show ?thesis using False ab p q old by (auto simp: nth_list_update)
            qed
          qed
        qed
        moreover have "map conn_display (writeback_connectors dev') = ?f[j := ?d]"
          using ws' wd by (simp add: map_update)
        ultimately show ?thesis
          unfolding one_writeback_per_display_def distinct_filter_nth by simp
      qed
      show ?thesis using a j(1,2,3) ws' wd inv False by auto
    qed
  qed
qed

theorem AttachWriteback_one_per_display_witness:
  "conn_encoder (connectors example_piped ! 0) = Some 0 \<and>
   enc_crtc (encoders example_piped 0) = Some 0 \<and>
   one_writeback_per_display example_piped \<and>
   fst (the (AttachWriteback example_kernel example_piped (connectors example_piped ! 0))) = 0 \<and>
   map conn_display (writeback_connectors
     (snd (the (AttachWriteback example_kernel example_piped (connectors example_piped ! 0))))) = [0] \<and>
   one_writeback_per_display
     (snd (the (AttachWriteback example_kernel example_piped (connectors example_piped ! 0)))) \<and>
   fst (the (AttachWriteback example_kernel
     (snd (the (AttachWriteback example_kernel example_piped (connectors example_piped ! 0))))
     (connectors example_piped ! 0))) = - EINVAL"
proof -
  have h1: "conn_encoder (connectors example_piped ! 0) = Some 0"
    by (simp add: example_piped_def)
  have h2: "enc_crtc (encoders example_piped 0) = Some 0"
    by (simp add: example_piped_def)
  have a: "AttachWriteback example_kernel example_piped (connectors example_piped ! 0) =
             Some (0, bind_writeback example_kernel example_piped 0 0
                        (writeback_connectors example_piped ! 0) 2)"
    by (simp add: AttachWriteback_def GetWritebackConnectorForDisplay_def example_piped_def
        example_device_def example_connector_def example_hdmi_def example_writeback_def
        enc_can_bind_def)
  have w: "map conn_display (writeback_connectors (bind_writeback example_kernel example_piped 0 0
                        (writeback_connectors example_piped ! 0) 2)) = [0]"
    by (simp add: bind_writeback_fields UpdateModes_display example_piped_def example_device_def
        example_writeback_def)
  have h2': "enc_crtc (encoders (bind_writeback example_kernel example_piped 0 0
                        (writeback_connectors example_piped ! 0) 2) 0) = Some 0"
    by (simp add: bind_writeback_def enc_set_crtc_def Let_def example_piped_def)
  have c': "crtc_display (crtcs (bind_writeback example_kernel example_piped 0 0
                        (writeback_connectors example_piped ! 0) 2) 0) = 0"
    by (simp add: bind_writeback_fields example_piped_def)
  have g: "GetWritebackConnectorForDisplay (bind_writeback example_kernel example_piped 0 0
                        (writeback_connectors example_piped ! 0) 2) 0 = Some 0"
    using w by (cases "writeback_connectors (bind_writeback example_kernel example_piped 0 0
                        (writeback_connectors example_piped ! 0) 2)")
      (simp_all add: GetWritebackConnectorForDisplay_def)
  have b: "AttachWriteback example_kernel (bind_writeback example_kernel example_piped 0 0
                        (writeback_connectors example_piped ! 0) 2) (connectors example_piped ! 0) =
             Some (- EINVAL, bind_writeback example_kernel example_piped 0 0
                        (writeback_connectors example_piped ! 0) 2)"
    using h1 h2' c' g by (simp add: AttachWriteback_def)
  have i: "one_writeback_per_display example_piped"
    by (simp add: one_writeback_per_display_def example_piped_def example_device_def
        example_connector_def example_writeback_def)
  show ?thesis
    using h1 h2 i AttachWriteback_one_per_display [OF h1 h2, of example_kernel]
    by (simp add: a b w one_writeback_per_display_def)
qed

section \<open>Creating the pipes\<close>



lemma unbound_fields:
  "conn_display (unbound c) = conn_display c"
  "conn_state (unbound c) = conn_state c"
  "internal (unbound c) = internal c"
  "external (unbound c) = external c"
  "display_capable (unbound c) = display_capable c"
  by (simp_all add: unbound_def internal_def external_def display_capable_def)

lemma unbound_set_encoder: "unbound (c\<lparr>conn_encoder := e\<rparr>) = unbound c"
  by (simp add: unbound_def)

lemma map_unbound_update:
  "map unbound (cs[i := (cs ! i)\<lparr>conn_encoder := e\<rparr>]) = map unbound cs"
proof (cases "i < length cs")
  case True
  then show ?thesis
    by (simp add: map_update unbound_set_encoder list_update_same_conv)
next
  case False
  then show ?thesis by (simp add: list_update_beyond not_less)
qed

lemma TryEncoderForDisplay_frame:
  assumes "TryEncoderForDisplay dev display enc = (ret, dev')"
  shows "connectors dev' = connectors dev" and "displays dev' = displays dev"
    and "writeback_connectors dev' = writeback_connectors dev"
    and "ret = 0 \<Longrightarrow> \<exists>c. enc_crtc (encoders dev' enc) = Some c"
  using assms unfolding TryEncoderForDisplay_eq
  by (auto simp: bound_to_def EAGAIN_def split: option.splits)

lemma try_possible_encoders_frame:
  "try_possible_encoders dev i display encs = (ret, dev') \<Longrightarrow>
     map unbound (connectors dev') = map unbound (connectors dev) \<and>
     displays dev' = displays dev \<and>
     (ret = 0 \<longrightarrow> i < length (connectors dev) \<longrightarrow>
        (\<exists>enc c. conn_encoder (connectors dev' ! i) = Some enc \<and>
                 enc_crtc (encoders dev' enc) = Some c))"
proof (induction encs arbitrary: dev)
  case Nil
  then show ?case by (simp add: ENODEV_def)
next
  case (Cons enc rest)
  obtain r d where t: "TryEncoderForDisplay dev display enc = (r, d)"
    by (cases "TryEncoderForDisplay dev display enc")
  note f = TryEncoderForDisplay_frame [OF t]
  show ?case
  proof (cases "r = 0")
    case True
    then have "ret = 0" "dev' = set_encoder d i enc" using Cons.prems t by simp_all
    then show ?thesis using f True
      by (auto simp: set_encoder_def map_unbound_update)
  next
    case False
    show ?thesis
    proof (cases "r \<noteq> - EAGAIN")
      case True
      then have "ret = r" "dev' = d" using Cons.prems t False by simp_all
      then show ?thesis using f False by simp
    next
      case ag: False
      then have "try_possible_encoders d i display rest = (ret, dev')"
        using Cons.prems t False by simp
      from Cons.IH [OF this] show ?thesis using f by simp
    qed
  qed
qed

lemma CreateDisplayPipe_frame:
  assumes "CreateDisplayPipe dev i = (ret, dev')"
  shows "map unbound (connectors dev') = map unbound (connectors dev)"
    and "displays dev' = displays dev"
    and "ret = 0 \<Longrightarrow> i < length (connectors dev) \<Longrightarrow>
        \<exists>enc c. conn_encoder (connectors dev' ! i) = Some enc \<and>
                enc_crtc (encoders dev' enc) = Some c"
proof -
  let ?conn = "connectors dev ! i"
  have "map unbound (connectors dev') = map unbound (connectors dev) \<and>
     displays dev' = displays dev \<and>
     (ret = 0 \<longrightarrow> i < length (connectors dev) \<longrightarrow>
        (\<exists>enc c. conn_encoder (connectors dev' ! i) = Some enc \<and>
                 enc_crtc (encoders dev' enc) = Some c))"
  proof (cases "conn_encoder ?conn")
    case None
    then have "try_possible_encoders dev i (conn_display ?conn) (conn_possible_encoders ?conn) =
                 (ret, dev')"
      using assms by (simp add: CreateDisplayPipe_def Let_def)
    from try_possible_encoders_frame [OF this] show ?thesis .
  next
    case (Some enc)
    obtain r d where t: "TryEncoderForDisplay dev (conn_display ?conn) enc = (r, d)"
      by (cases "TryEncoderForDisplay dev (conn_display ?conn) enc")
    note f = TryEncoderForDisplay_frame [OF t]
    show ?thesis
    proof (cases "r = 0 \<or> r \<noteq> - EAGAIN")
      case True
      then have "ret = r" "dev' = d"
        using assms Some t by (auto simp: CreateDisplayPipe_def Let_def split: if_splits)
      then show ?thesis using f Some by auto
    next
      case False
      then have "try_possible_encoders d i (conn_display ?conn) (conn_possible_encoders ?conn) =
                 (ret, dev')"
        using assms Some t by (auto simp: CreateDisplayPipe_def Let_def)
      from try_possible_encoders_frame [OF this] show ?thesis using f by simp
    qed
  qed
  then show "map unbound (connectors dev') = map unbound (connectors dev)"
    and "displays dev' = displays dev"
    and "ret = 0 \<Longrightarrow> i < length (connectors dev) \<Longrightarrow>
        \<exists>enc c. conn_encoder (connectors dev' ! i) = Some enc \<and>
                enc_crtc (encoders dev' enc) = Some c"
    by simp_all
qed

lemma attach_loop_frame:
  assumes "attach_loop io dev c k rest = (ret, dev')"
  shows "connectors dev' = connectors dev" and "displays dev' = displays dev"
  using attach_loop_cases [OF assms] by (auto simp: bind_writeback_fields)

lemma AttachWriteback_frame:
  assumes "AttachWriteback io dev conn = Some (ret, dev')"
  shows "connectors dev' = connectors dev" and "displays dev' = displays dev"
proof -
  have "connectors dev' = connectors dev \<and> displays dev' = displays dev"
  proof (cases "attach_loop io dev (the (enc_crtc (encoders dev (the (conn_encoder conn))))) 0
                  (writeback_connectors dev)")
    case (Pair r d)
    note f = attach_loop_frame [OF Pair]
    show ?thesis using assms Pair f
      by (auto simp: AttachWriteback_def split: option.splits if_splits)
  qed
  then show "connectors dev' = connectors dev" and "displays dev' = displays dev" by simp_all
qed

lemma AttachWriteback_defined:
  "conn_encoder conn = Some enc \<Longrightarrow> enc_crtc (encoders dev enc) = Some c \<Longrightarrow>
     AttachWriteback io dev conn \<noteq> None"
  by (simp add: AttachWriteback_def)

lemma create_pipes_frame:
  "\<forall>i \<in> set is. i < length (connectors dev) \<Longrightarrow>
     \<exists>ret dev'. create_pipes io dev is = Some (ret, dev') \<and>
       map unbound (connectors dev') = map unbound (connectors dev) \<and>
       displays dev' = displays dev"
proof (induction "is" arbitrary: dev)
  case Nil
  then show ?case by simp
next
  case (Cons i rest)
  obtain r d where p: "CreateDisplayPipe dev i = (r, d)"
    by (cases "CreateDisplayPipe dev i")
  note f = CreateDisplayPipe_frame [OF p]
  have len: "length (connectors d) = length (connectors dev)"
    using f(1) by (metis length_map)
  show ?case
  proof (cases "r = 0")
    case False
    then show ?thesis using p f by simp
  next
    case True
    have "i < length (connectors dev)" using Cons.prems by simp
    from f(3) [OF True this] obtain enc c
      where e: "conn_encoder (connectors d ! i) = Some enc" "enc_crtc (encoders d enc) = Some c"
      by blast
    from AttachWriteback_defined [OF e, of io] obtain r2 d2
      where a: "AttachWriteback io d (connectors d ! i) = Some (r2, d2)" by auto
    note g = AttachWriteback_frame [OF a]
    have "\<forall>j \<in> set rest. j < length (connectors d2)" using Cons.prems g(1) len by simp
    from Cons.IH [OF this, of ] obtain ret dev'
      where "create_pipes io d2 rest = Some (ret, dev')"
        "map unbound (connectors dev') = map unbound (connectors d2)"
        "displays dev' = displays d2" by blast
    then show ?thesis using p True a f g by simp
  qed
qed


section \<open>Display ids\<close>

lemma find_if_None: "find_if P xs = None \<longleftrightarrow> (\<forall>x \<in> set xs. \<not> P x)"
  by (induction xs) auto

lemma find_if_Some: "find_if P xs = Some i \<Longrightarrow> i < length xs \<and> P (xs ! i)"
  by (induction xs arbitrary: i) (auto split: if_splits)

lemma put_named_first_unnamed:
  "\<forall>n \<in> set names. \<forall>c \<in> set cands. name (conns ! c) \<noteq> n \<Longrightarrow>
     put_named_first conns names cands cur = Some (cands, cur)"
proof (induction names)
  case Nil
  then show ?case by simp
next
  case (Cons n names)
  have "find_if (\<lambda>c. name (conns ! c) = n) cands = None"
    using Cons.prems by (simp add: find_if_None)
  then show ?case using Cons by simp
qed

lemma put_named_first_set:
  "put_named_first conns names cands cur = Some (out, k) \<Longrightarrow> set out = set cands"
proof (induction names arbitrary: cands cur)
  case Nil
  then show ?case by simp
next
  case (Cons n names)
  show ?case
  proof (cases "find_if (\<lambda>c. name (conns ! c) = n) cands")
    case None
    then show ?thesis using Cons by simp
  next
    case (Some it)
    then have it: "it < length cands" using find_if_Some by fastforce
    have c: "cur < length cands" using Cons.prems Some by (simp split: if_splits)
    then have "put_named_first conns names (iter_swap it cur cands) (Suc cur) = Some (out, k)"
      using Cons.prems Some by simp
    from Cons.IH [OF this] show ?thesis using it c by (simp add: iter_swap_def set_swap)
  qed
qed

lemma connected_candidates:
  "set (filter (\<lambda>c. \<not> conn_state (conns ! c) \<noteq> DRM_MODE_CONNECTED) [0..<length conns]) =
     {i. i < length conns \<and> conn_state (conns ! i) = DRM_MODE_CONNECTED}"
  by auto

lemma make_primary_display_candidates_connected:
  assumes part: "\<forall>P xs. set (std_partition P xs) \<subseteq> set xs"
    and m: "make_primary_display_candidates std_partition display_order conns = Some cs"
  shows "set cs \<subseteq> {i. i < length conns \<and> conn_state (conns ! i) = DRM_MODE_CONNECTED}"
proof -
  let ?c = "filter (\<lambda>c. \<not> conn_state (conns ! c) \<noteq> DRM_MODE_CONNECTED) [0..<length conns]"
  from m obtain out k where p: "put_named_first conns display_order ?c 0 = Some (out, k)"
    and cs: "cs = take k out \<or> cs = take k out @ std_partition (\<lambda>c. internal (conns ! c)) (drop k out)"
    by (auto simp: make_primary_display_candidates_def Let_def split: if_splits option.splits)
  have so: "set out = set ?c" by (rule put_named_first_set [OF p])
  have "set (take k out) \<subseteq> set out" by (rule set_take_subset)
  moreover have "set (std_partition (\<lambda>c. internal (conns ! c)) (drop k out)) \<subseteq> set out"
    using part set_drop_subset by fast
  ultimately have "set cs \<subseteq> set out" using cs by auto
  then show ?thesis using so connected_candidates [of conns] by simp
qed

lemma make_primary_display_candidates_empty:
  assumes "display_order \<noteq> []" and "last display_order \<noteq> ''...''"
    and none: "\<forall>n \<in> set display_order. \<forall>c \<in> set conns.
                 conn_state c = DRM_MODE_CONNECTED \<longrightarrow> name c \<noteq> n"
  shows "make_primary_display_candidates std_partition display_order conns = Some []"
proof -
  let ?c = "filter (\<lambda>c. \<not> conn_state (conns ! c) \<noteq> DRM_MODE_CONNECTED) [0..<length conns]"
  have "\<forall>n \<in> set display_order. \<forall>c \<in> set ?c. name (conns ! c) \<noteq> n"
    using none by auto
  then have "put_named_first conns display_order ?c 0 = Some (?c, 0)"
    by (rule put_named_first_unnamed)
  then show ?thesis using assms(1,2)
    by (simp add: make_primary_display_candidates_def Let_def)
qed

lemma map_assign_fresh: "k \<notin> fst ` set m \<Longrightarrow> map_assign k v m = m @ [(k, v)]"
  by (induction m) auto


lemma assign_displays_fresh:
  assumes "\<forall>c \<in> set cs. conn_display c = - 1" and "\<forall>k \<in> fst ` set disp. k < n"
  shows "\<exists>disp' found'. assign_displays cs disp n found =
           (map2 (\<lambda>c d. c\<lparr>conn_display := d\<rparr>) cs (numbered n cs), disp',
            n + int (length (filter display_capable cs)), found') \<and>
           length disp' = length disp + length (filter display_capable cs)"
  using assms
proof (induction cs arbitrary: disp n found)
  case Nil
  then show ?case by simp
next
  case (Cons c cs)
  have c1: "conn_display c = - 1" and cs1: "\<forall>c \<in> set cs. conn_display c = - 1"
    using Cons.prems(1) by simp_all
  show ?case
  proof (cases "display_capable c")
    case False
    from Cons.IH [OF cs1 Cons.prems(2), of found] obtain disp' found'
      where "assign_displays cs disp n found =
           (map2 (\<lambda>c d. c\<lparr>conn_display := d\<rparr>) cs (numbered n cs), disp',
            n + int (length (filter display_capable cs)), found')"
        "length disp' = length disp + length (filter display_capable cs)" by blast
    moreover have "\<not> (external c \<or> internal c)"
      using False by (simp add: display_capable_def)
    ultimately show ?thesis using False c1 by simp
  next
    case True
    have fr: "n \<notin> fst ` set disp" using Cons.prems(2) by auto
    have nx: "\<forall>k \<in> fst ` set (map_assign n n disp). k < n + 1"
      using Cons.prems(2) by (auto simp: map_assign_fresh [OF fr])
    let ?f = "\<not> found \<or> found"
    from Cons.IH [OF cs1 nx] obtain disp' found'
      where a: "assign_displays cs (map_assign n n disp) (n + 1) (if found then found else True) =
           (map2 (\<lambda>c d. c\<lparr>conn_display := d\<rparr>) cs (numbered (n + 1) cs), disp',
            n + 1 + int (length (filter display_capable cs)), found')"
        "length disp' = length (map_assign n n disp) + length (filter display_capable cs)"
      by blast
    have l: "length (map_assign n n disp) = length disp + 1"
      by (simp add: map_assign_fresh [OF fr])
    have ei: "external c \<or> internal c" using True by (simp add: display_capable_def)
    show ?thesis
    proof (cases found)
      case True
      then show ?thesis using a l \<open>display_capable c\<close> c1 ei by simp
    next
      case False
      then show ?thesis using a l \<open>display_capable c\<close> c1 ei by simp
    qed
  qed
qed

lemma map2_display_numbered:
  "map conn_display (map2 (\<lambda>c d. c\<lparr>conn_display := d\<rparr>) cs (numbered n cs)) = numbered n cs"
  by (induction cs arbitrary: n) simp_all

lemma length_numbered: "length (numbered n cs) = length cs"
  by (induction cs arbitrary: n) simp_all


lemma map_display_unbound:
  "map unbound cs' = map unbound cs \<Longrightarrow> map conn_display cs' = map conn_display cs"
proof -
  assume "map unbound cs' = map unbound cs"
  then have "map conn_display (map unbound cs') = map conn_display (map unbound cs)" by simp
  then show ?thesis by (simp add: o_def unbound_fields)
qed

lemma Init_result:
  assumes s: "select_primary std_partition display_order dev num_displays = Some (dev1, n1, f1)"
    and a: "assign_displays (connectors dev1) (displays dev1) n1 f1 = (conns, disp, counters)"
  shows "\<exists>res dev'. Init std_partition display_order io ret planes_ret listener_ret dev num_displays =
             Some (res, dev') \<and>
           map unbound (connectors dev') = map unbound conns \<and>
           displays dev' = disp \<and>
           (fst res = 0 \<longrightarrow> snd res = length disp) \<and> (fst res \<noteq> 0 \<longrightarrow> snd res = 0)"
proof -
  let ?dev2 = "dev1\<lparr>connectors := conns, displays := disp\<rparr>"
  have "\<forall>i \<in> set [0..<length (connectors ?dev2)]. i < length (connectors ?dev2)" by simp
  from create_pipes_frame [OF this, of io] obtain r dev3
    where p: "create_pipes io ?dev2 [0..<length (connectors ?dev2)] = Some (r, dev3)"
      "map unbound (connectors dev3) = map unbound (connectors ?dev2)"
      "displays dev3 = displays ?dev2" by blast
  show ?thesis
    using s a p by (cases "r = 0") (simp_all add: Init_def Let_def)
qed

lemma class_update:
  "internal (c\<lparr>conn_display := d\<rparr>) = internal c"
  "external (c\<lparr>conn_display := d\<rparr>) = external c"
  "internal (c\<lparr>conn_encoder := e\<rparr>) = internal c"
  "external (c\<lparr>conn_encoder := e\<rparr>) = external c"
  "name (c\<lparr>conn_display := d\<rparr>) = name c"
  "name (c\<lparr>conn_encoder := e\<rparr>) = name c"
  by (simp_all add: internal_def external_def name_def)

lemma example_hdmi_facts:
  "name example_hdmi = ''HDMI-A-1''" "conn_state example_hdmi = DRM_MODE_DISCONNECTED"
  "external example_hdmi" "\<not> internal example_hdmi" "conn_display example_hdmi = - 1"
  "conn_encoder example_hdmi = None" "conn_possible_encoders example_hdmi = [0]"
  by (simp_all add: example_hdmi_def name_def example_connector_def kTypesCount_def kNames_def
      external_def internal_def
      DRM_MODE_CONNECTOR_HDMIA_def DRM_MODE_CONNECTOR_eDP_def DRM_MODE_CONNECTOR_LVDS_def
      DRM_MODE_CONNECTOR_DSI_def DRM_MODE_CONNECTOR_VIRTUAL_def DRM_MODE_CONNECTOR_DPI_def)

lemma example_edp_facts:
  "name example_edp = ''eDP-1''" "conn_state example_edp = DRM_MODE_CONNECTED"
  "internal example_edp" "conn_display example_edp = - 1"
  "conn_encoder example_edp = None" "conn_possible_encoders example_edp = [1]"
  by (simp_all add: example_edp_def name_def example_connector_def kTypesCount_def kNames_def
      external_def internal_def DRM_MODE_CONNECTOR_eDP_def)


lemma assign_displays_relation:
  "0 \<le> n \<Longrightarrow> assign_displays cs disp n found = (cs', rest) \<Longrightarrow>
     list_all2 (\<lambda>c c'. c' = c\<lparr>conn_display := conn_display c'\<rparr> \<and>
                        (display_capable c \<longrightarrow> 0 \<le> conn_display c') \<and>
                        (\<not> display_capable c \<longrightarrow> c' = c)) cs cs'"
proof (induction cs arbitrary: disp n found cs' rest)
  case Nil
  then show ?case by simp
next
  case (Cons c cs)
  have n1: "0 \<le> n + 1" using Cons.prems(1) by simp
  show ?case
  proof (cases "external c \<or> internal c")
    case False
    obtain t r where a: "assign_displays cs disp n found = (t, r)"
      by (cases "assign_displays cs disp n found")
    have "cs' = c # t" using Cons.prems(2) False a by simp
    then show ?thesis using Cons.IH [OF Cons.prems(1) a] False
      by (simp add: display_capable_def)
  next
    case True
    show ?thesis
    proof (cases "\<not> found \<or> conn_display c < 0")
      case assign: True
      obtain t r where a: "assign_displays cs (map_assign n n disp) (n + 1)
                             (if found then found else True) = (t, r)"
        by (cases "assign_displays cs (map_assign n n disp) (n + 1) (if found then found else True)")
      have "cs' = c\<lparr>conn_display := n\<rparr> # t"
        using Cons.prems(2) True assign a by (cases found) auto
      then show ?thesis using Cons.IH [OF n1 a] True Cons.prems(1)
        by (auto simp: display_capable_def)
    next
      case keep: False
      obtain t r where a: "assign_displays cs disp n found = (t, r)"
        by (cases "assign_displays cs disp n found")
      have "cs' = c # t" using Cons.prems(2) True keep a by auto
      then show ?thesis using Cons.IH [OF Cons.prems(1) a] True keep
        by (simp add: display_capable_def)
    qed
  qed
qed

lemma select_primary_cases:
  assumes part: "\<forall>P xs. set (std_partition P xs) \<subseteq> set xs"
    and s: "select_primary std_partition display_order dev num_displays = Some (dev1, n1, f1)"
  shows "(dev1 = dev \<and> n1 = num_displays \<and>
          primary_choice std_partition display_order dev num_displays = None) \<or>
         (\<exists>i. primary_choice std_partition display_order dev num_displays = Some i \<and>
              i < length (connectors dev) \<and>
              conn_state (connectors dev ! i) = DRM_MODE_CONNECTED \<and>
              connectors dev1 =
                (connectors dev)[i := (connectors dev ! i)\<lparr>conn_display := num_displays\<rparr>] \<and>
              n1 = num_displays + 1 \<and> f1)"
proof -
  from s obtain cands
    where m: "make_primary_display_candidates std_partition display_order (connectors dev) = Some cands"
    by (auto simp: select_primary_def Let_def split: option.splits)
  note sub = make_primary_display_candidates_connected [OF part m]
  show ?thesis
  proof (cases "cands \<noteq> [] \<and> \<not> num_displays \<noteq> 0")
    case False
    then show ?thesis using s m by (auto simp: select_primary_def primary_choice_def Let_def)
  next
    case True
    then have "hd cands \<in> set cands" by simp
    then have "hd cands < length (connectors dev) \<and>
               conn_state (connectors dev ! hd cands) = DRM_MODE_CONNECTED"
      using sub by auto
    moreover have "connectors dev1 =
        (connectors dev)[hd cands := (connectors dev ! hd cands)\<lparr>conn_display := num_displays\<rparr>]"
      and "n1 = num_displays + 1" and f1
      using s m True by (auto simp: select_primary_def Let_def)
    moreover have "primary_choice std_partition display_order dev num_displays = Some (hd cands)"
      using m True by (simp add: primary_choice_def)
    ultimately show ?thesis by blast
  qed
qed

lemma assign_displays_keeps:
  "assign_displays cs disp n True = (cs', rest) \<Longrightarrow>
     list_all2 (\<lambda>c c'. 0 \<le> conn_display c \<longrightarrow> c' = c) cs cs'"
proof (induction cs arbitrary: disp n cs' rest)
  case Nil
  then show ?case by simp
next
  case (Cons c cs)
  show ?case
  proof (cases "(external c \<or> internal c) \<and> conn_display c < 0")
    case True
    obtain t r where a: "assign_displays cs (map_assign n n disp) (n + 1) True = (t, r)"
      by (cases "assign_displays cs (map_assign n n disp) (n + 1) True")
    have "cs' = c\<lparr>conn_display := n\<rparr> # t"
      using Cons.prems True a by (auto split: if_splits)
    then show ?thesis using Cons.IH [OF a] True by simp
  next
    case False
    obtain t r where a: "assign_displays cs disp n True = (t, r)"
      by (cases "assign_displays cs disp n True")
    have "cs' = c # t" using Cons.prems False a by (auto split: if_splits)
    then show ?thesis using Cons.IH [OF a] by simp
  qed
qed

lemma example_device_fields:
  "connectors example_device = [example_hdmi, example_edp]"
  "displays example_device = []"
  by (simp_all add: example_device_def)

lemma example_partition_contract: "\<forall>P xs. set (example_partition P xs) \<subseteq> set xs"
  by (auto simp: example_partition_def)

lemma example_pipes_status:
  "map_option fst (create_pipes example_kernel
     (example_device\<lparr>connectors := [example_hdmi\<lparr>conn_display := a\<rparr>, example_edp\<lparr>conn_display := b\<rparr>],
                     displays := disp\<rparr>) [0, 1]) = Some 0"
  if "a \<noteq> b" and "0 \<le> a" and "0 \<le> b"
  using that
  by (simp add: CreateDisplayPipe_def Let_def example_device_def
     example_hdmi_facts example_edp_facts example_writeback_def example_connector_def
     TryEncoderForDisplay_eq chosen_crtc_def crtc_can_bind_def bound_to_def set_encoder_def
     AttachWriteback_def GetWritebackConnectorForDisplay_def enc_can_bind_def
     bind_writeback_def enc_set_crtc_def UpdateModes_def example_kernel_def EAGAIN_def EINVAL_def)

lemma example_Init:
  assumes s: "select_primary example_partition display_order example_device 0 = Some (dev1, n1, f1)"
    and c: "connectors dev1 = cs1" "displays dev1 = d1"
    and a: "assign_displays cs1 d1 n1 f1 =
              ([example_hdmi\<lparr>conn_display := x\<rparr>, example_edp\<lparr>conn_display := y\<rparr>],
               [(0, 0), (1, 1)], counters)"
    and e: "dev1\<lparr>connectors := [example_hdmi\<lparr>conn_display := x\<rparr>, example_edp\<lparr>conn_display := y\<rparr>],
                 displays := [(0, 0), (1, 1)]\<rparr> =
            example_device\<lparr>connectors := [example_hdmi\<lparr>conn_display := x\<rparr>, example_edp\<lparr>conn_display := y\<rparr>],
                 displays := [(0, 0), (1, 1)]\<rparr>"
    and xy: "x \<noteq> y" "0 \<le> x" "0 \<le> y"
  shows "\<exists>dev'. Init example_partition display_order example_kernel 0 0 0 example_device 0 =
             Some ((0, 2), dev') \<and>
           map conn_display (connectors dev') = [x, y] \<and>
           map conn_state (connectors dev') = [DRM_MODE_DISCONNECTED, DRM_MODE_CONNECTED] \<and>
           map display_capable (connectors dev') = [True, True]"
proof -
  let ?cs = "[example_hdmi\<lparr>conn_display := x\<rparr>, example_edp\<lparr>conn_display := y\<rparr>]"
  let ?dev2 = "example_device\<lparr>connectors := ?cs, displays := [(0, 0), (1, 1)]\<rparr>"
  have "\<forall>i \<in> set [0, 1]. i < length (connectors ?dev2)" by simp
  from create_pipes_frame [OF this, of example_kernel] obtain r dev3
    where p: "create_pipes example_kernel ?dev2 [0, 1] = Some (r, dev3)"
      "map unbound (connectors dev3) = map unbound (connectors ?dev2)"
      "displays dev3 = displays ?dev2" by blast
  have r0: "r = 0" using example_pipes_status [OF xy, of "[(0, 0), (1, 1)]"] p(1) by simp
  have upt: "[0..<2] = [0, 1]" by (simp add: numeral_2_eq_2)
  have "[0..<length ?cs] = [0, 1]" using upt by simp
  then have i: "Init example_partition display_order example_kernel 0 0 0 example_device 0 =
             Some ((0, 2), dev3)"
    using s c a e p r0 by (simp add: Init_def Let_def del: upt_Suc)
  have u: "map unbound (connectors dev3) = map unbound ?cs" using p(2) by simp
  have "map conn_display (connectors dev3) = map conn_display ?cs"
    by (rule map_display_unbound [OF u])
  moreover have "map conn_state (map unbound (connectors dev3)) = map conn_state (map unbound ?cs)"
    using u by simp
  then have "map conn_state (connectors dev3) = map conn_state ?cs"
    by (simp add: o_def unbound_fields)
  moreover have "map display_capable (map unbound (connectors dev3)) =
                   map display_capable (map unbound ?cs)"
    using u by simp
  then have "map display_capable (connectors dev3) = map display_capable ?cs"
    by (simp add: o_def unbound_fields)
  moreover have "display_capable (example_hdmi\<lparr>conn_display := x\<rparr>)"
    and "display_capable (example_edp\<lparr>conn_display := y\<rparr>)"
    by (simp_all add: display_capable_def class_update example_hdmi_facts example_edp_facts)
  ultimately show ?thesis using i
    by (simp add: example_hdmi_facts example_edp_facts)
qed

lemma example_Init_hdmi_order:
  "\<exists>dev'. Init example_partition [''HDMI-A-1''] example_kernel 0 0 0 example_device 0 =
             Some ((0, 2), dev') \<and>
           map conn_display (connectors dev') = [0, 1] \<and>
           map conn_state (connectors dev') = [DRM_MODE_DISCONNECTED, DRM_MODE_CONNECTED] \<and>
           map display_capable (connectors dev') = [True, True]"
proof -
  have m: "make_primary_display_candidates example_partition [''HDMI-A-1'']
             (connectors example_device) = Some []"
    by (simp add: make_primary_display_candidates_def example_device_fields example_hdmi_facts
        example_edp_facts Let_def upt_rec [of 0] upt_rec [of 1] upt_rec [of 2])
  have s: "select_primary example_partition [''HDMI-A-1''] example_device 0 =
             Some (example_device, 0, False)"
    by (simp add: select_primary_def m)
  have a: "assign_displays [example_hdmi, example_edp] [] 0 False =
     ([example_hdmi\<lparr>conn_display := 0\<rparr>, example_edp\<lparr>conn_display := 1\<rparr>],
      [(0, 0), (1, 1)], 2, True)"
    by (simp add: example_hdmi_facts example_edp_facts class_update)
  show ?thesis
    by (rule example_Init [OF s example_device_fields a]) simp_all
qed

lemma example_Init_wildcard_order:
  "\<exists>dev'. Init example_partition [''...''] example_kernel 0 0 0 example_device 0 =
             Some ((0, 2), dev') \<and>
           map conn_display (connectors dev') = [1, 0] \<and>
           map conn_state (connectors dev') = [DRM_MODE_DISCONNECTED, DRM_MODE_CONNECTED] \<and>
           map display_capable (connectors dev') = [True, True]"
proof -
  have m: "make_primary_display_candidates example_partition [''...'']
             (connectors example_device) = Some [1]"
    by (simp add: make_primary_display_candidates_def example_device_fields example_hdmi_facts
        example_edp_facts example_partition_def Let_def
        upt_rec [of 0] upt_rec [of 1] upt_rec [of 2])
  have s: "select_primary example_partition [''...''] example_device 0 =
             Some (example_device\<lparr>connectors := [example_hdmi, example_edp\<lparr>conn_display := 0\<rparr>],
                                  displays := [(0, 0)]\<rparr>, 1, True)"
    by (simp add: select_primary_def m) (simp add: example_device_fields)
  have a: "assign_displays [example_hdmi, example_edp\<lparr>conn_display := 0\<rparr>] [(0, 0)] 1 True =
     ([example_hdmi\<lparr>conn_display := 1\<rparr>, example_edp\<lparr>conn_display := 0\<rparr>],
      [(0, 0), (1, 1)], 2, True)"
    by (simp add: example_hdmi_facts example_edp_facts class_update)
  show ?thesis
    by (rule example_Init [OF s _ _ a]) simp_all
qed

text \<open>
  C4, as the code has it. Let the display order be non-empty, not end in the wildcard
  and name no connected connector. Then the list of primary candidates is empty and the
  selection step claims no display. The assignment loop that follows still numbers the
  internal and external connectors, connected or not, in enumeration order from
  \<open>num_displays\<close> on: on a device whose connectors hold no display id yet, \<open>Init\<close>
  returns, the connectors then hold exactly those numbers whatever status it returns,
  and \<open>Init\<close> reports the number of internal and external connectors when its status
  is 0 and zero displays when its status is an error (of the enumeration before the
  selection or of a step after it).
\<close>

theorem Init_without_primary_candidates:
  assumes "display_order \<noteq> []" and "last display_order \<noteq> ''...''"
    and "\<forall>n \<in> set display_order. \<forall>c \<in> set (connectors dev).
           conn_state c = DRM_MODE_CONNECTED \<longrightarrow> name c \<noteq> n"
    and fresh: "\<forall>c \<in> set (connectors dev). conn_display c = - 1" and d0: "displays dev = []"
  shows "make_primary_display_candidates std_partition display_order (connectors dev) = Some [] \<and>
         select_primary std_partition display_order dev num_displays =
           Some (dev, num_displays, num_displays \<noteq> 0) \<and>
         (\<exists>res dev'. Init std_partition display_order io ret planes_ret listener_ret dev num_displays =
             Some (res, dev') \<and>
           map conn_display (connectors dev') = numbered num_displays (connectors dev) \<and>
           (fst res = 0 \<longrightarrow> snd res = length (filter display_capable (connectors dev))) \<and>
           (fst res \<noteq> 0 \<longrightarrow> snd res = 0))"
proof -
  have m: "make_primary_display_candidates std_partition display_order (connectors dev) = Some []"
    by (rule make_primary_display_candidates_empty [OF assms(1,2,3)])
  then have s: "select_primary std_partition display_order dev num_displays =
           Some (dev, num_displays, num_displays \<noteq> 0)"
    by (simp add: select_primary_def)
  have "\<forall>k \<in> fst ` set (displays dev). k < num_displays" using d0 by simp
  from assign_displays_fresh [OF fresh this, of "num_displays \<noteq> 0"] obtain disp' found'
    where a: "assign_displays (connectors dev) (displays dev) num_displays (num_displays \<noteq> 0) =
           (map2 (\<lambda>c d. c\<lparr>conn_display := d\<rparr>) (connectors dev)
              (numbered num_displays (connectors dev)), disp',
            num_displays + int (length (filter display_capable (connectors dev))), found')"
      and l: "length disp' = length (displays dev) + length (filter display_capable (connectors dev))"
    by blast
  from Init_result [OF s a, of io ret planes_ret listener_ret] obtain res dev'
    where i: "Init std_partition display_order io ret planes_ret listener_ret dev num_displays =
             Some (res, dev')"
      "map unbound (connectors dev') =
         map unbound (map2 (\<lambda>c d. c\<lparr>conn_display := d\<rparr>) (connectors dev)
              (numbered num_displays (connectors dev)))"
      "displays dev' = disp'"
      "fst res = 0 \<longrightarrow> snd res = length disp'" "fst res \<noteq> 0 \<longrightarrow> snd res = 0"
    by blast
  have "map conn_display (connectors dev') = numbered num_displays (connectors dev)"
    using map_display_unbound [OF i(2)] by (simp only: map2_display_numbered)
  then show ?thesis using m s i l d0 by simp
qed

theorem Init_without_primary_candidates_witness:
  "[''HDMI-A-1''] \<noteq> [] \<and> last [''HDMI-A-1''] \<noteq> ''...'' \<and>
   map name (connectors example_device) = [''HDMI-A-1'', ''eDP-1''] \<and>
   map conn_state (connectors example_device) = [DRM_MODE_DISCONNECTED, DRM_MODE_CONNECTED] \<and>
   map conn_display (connectors example_device) = [- 1, - 1] \<and>
   displays example_device = [] \<and>
   make_primary_display_candidates example_partition [''HDMI-A-1'']
     (connectors example_device) = Some [] \<and>
   select_primary example_partition [''HDMI-A-1''] example_device 0 =
     Some (example_device, 0, False) \<and>
   numbered 0 (connectors example_device) = [0, 1] \<and>
   length (filter display_capable (connectors example_device)) = 2 \<and>
   map conn_display (connectors (snd (the
     (Init example_partition [''HDMI-A-1''] example_kernel 0 0 0 example_device 0)))) = [0, 1] \<and>
   snd (fst (the (Init example_partition [''HDMI-A-1''] example_kernel 0 0 0 example_device 0))) = 2"
proof -
  have h1: "[''HDMI-A-1''] \<noteq> []" by simp
  have h2: "last [''HDMI-A-1''] \<noteq> ''...''" by simp
  have h3: "\<forall>n \<in> set [''HDMI-A-1'']. \<forall>c \<in> set (connectors example_device).
      conn_state c = DRM_MODE_CONNECTED \<longrightarrow> name c \<noteq> n"
    by (simp add: example_device_fields example_hdmi_facts example_edp_facts)
  have h4: "\<forall>c \<in> set (connectors example_device). conn_display c = - 1"
    by (simp add: example_device_fields example_hdmi_facts example_edp_facts)
  have h5: "displays example_device = []" by (simp add: example_device_fields)
  have n: "numbered 0 (connectors example_device) = [0, 1]"
    by (simp add: example_device_fields example_hdmi_facts example_edp_facts)
  have k: "length (filter display_capable (connectors example_device)) = 2"
    by (simp add: example_device_fields display_capable_def example_hdmi_facts example_edp_facts)
  have f: "map name (connectors example_device) = [''HDMI-A-1'', ''eDP-1'']"
    "map conn_state (connectors example_device) = [DRM_MODE_DISCONNECTED, DRM_MODE_CONNECTED]"
    "map conn_display (connectors example_device) = [- 1, - 1]"
    by (simp_all add: example_device_fields example_hdmi_facts example_edp_facts)
  from example_Init_hdmi_order obtain d
    where d: "Init example_partition [''HDMI-A-1''] example_kernel 0 0 0 example_device 0 =
                Some ((0, 2), d)" by auto
  show ?thesis
    using h1 h2 h5 n k d f
      Init_without_primary_candidates [OF h1 h2 h3 h4 h5, of example_partition 0 example_kernel 0 0 0]
    by simp
qed

text \<open>
  The scenario that the specification gives for C4: the order names HDMI-A-1 only,
  HDMI-A-1 is disconnected and the panel eDP-1 is connected. \<open>Init\<close> succeeds and
  reports two displays; HDMI-A-1 is display 0 and eDP-1 display 1.
\<close>

theorem Init_zero_displays_counterexample:
  "connectors example_device = [example_hdmi, example_edp] \<and>
   name example_hdmi = ''HDMI-A-1'' \<and> conn_state example_hdmi = DRM_MODE_DISCONNECTED \<and>
   name example_edp = ''eDP-1'' \<and> conn_state example_edp = DRM_MODE_CONNECTED \<and>
   internal example_edp \<and>
   Init example_partition [''HDMI-A-1''] example_kernel 0 0 0 example_device 0 \<noteq> None \<and>
   fst (the (Init example_partition [''HDMI-A-1''] example_kernel 0 0 0 example_device 0)) = (0, 2) \<and>
   map conn_display (connectors (snd (the
     (Init example_partition [''HDMI-A-1''] example_kernel 0 0 0 example_device 0)))) = [0, 1]"
  using example_Init_hdmi_order
  by (auto simp: example_device_fields example_hdmi_facts example_edp_facts)

text \<open>
  C5, as the code has it. The assignment loop never looks at the connection state.
  Take a device whose connectors hold no display id yet, \<open>num_displays\<close> not negative and
  \<open>std::partition\<close> returning elements of its input. When \<open>Init\<close> returns, a connector of
  \<open>connectors_\<close> holds a display id exactly when it is internal or external, connected
  or not, or it is the connector chosen as primary; the connector chosen as primary is
  connected and holds \<open>num_displays\<close>. The connection states are those before the call.
\<close>

theorem Init_display_ids:
  assumes part: "\<forall>P xs. set (std_partition P xs) \<subseteq> set xs"
    and fresh: "\<forall>c \<in> set (connectors dev). conn_display c = - 1"
    and nd: "0 \<le> num_displays"
    and run: "Init std_partition display_order io ret planes_ret listener_ret dev num_displays =
                Some (res, dev')"
  shows "length (connectors dev') = length (connectors dev) \<and>
         (\<forall>j < length (connectors dev').
            conn_state (connectors dev' ! j) = conn_state (connectors dev ! j) \<and>
            (0 \<le> conn_display (connectors dev' ! j) \<longleftrightarrow>
               external (connectors dev' ! j) \<or> internal (connectors dev' ! j) \<or>
               primary_choice std_partition display_order dev num_displays = Some j) \<and>
            (primary_choice std_partition display_order dev num_displays = Some j \<longrightarrow>
               conn_state (connectors dev' ! j) = DRM_MODE_CONNECTED \<and>
               conn_display (connectors dev' ! j) = num_displays))"
proof -
  let ?pc = "primary_choice std_partition display_order dev num_displays"
  from run obtain dev1 n1 f1
    where s: "select_primary std_partition display_order dev num_displays = Some (dev1, n1, f1)"
    by (auto simp: Init_def split: option.splits)
  obtain conns disp counters
    where a: "assign_displays (connectors dev1) (displays dev1) n1 f1 = (conns, disp, counters)"
    by (cases "assign_displays (connectors dev1) (displays dev1) n1 f1") auto
  from Init_result [OF s a, of io ret planes_ret listener_ret] run
  have u: "map unbound (connectors dev') = map unbound conns" by auto
  note sp = select_primary_cases [OF part s]
  have n1: "0 \<le> n1" using sp nd by auto
  note rel = assign_displays_relation [OF n1 a]
  have len1: "length (connectors dev1) = length (connectors dev)" using sp by auto
  have len2: "length conns = length (connectors dev1)"
    using rel by (simp add: list_all2_lengthD)
  have len3: "length (connectors dev') = length conns" using u by (metis length_map)
  have per: "conn_state (connectors dev' ! j) = conn_state (connectors dev ! j) \<and>
            (0 \<le> conn_display (connectors dev' ! j) \<longleftrightarrow>
               external (connectors dev' ! j) \<or> internal (connectors dev' ! j) \<or> ?pc = Some j) \<and>
            (?pc = Some j \<longrightarrow>
               conn_state (connectors dev' ! j) = DRM_MODE_CONNECTED \<and>
               conn_display (connectors dev' ! j) = num_displays)"
    if j: "j < length (connectors dev')" for j
  proof -
    let ?cf = "connectors dev' ! j"
    let ?c0 = "connectors dev ! j" and ?c1 = "connectors dev1 ! j" and ?c2 = "conns ! j"
    have jl: "j < length conns" "j < length (connectors dev1)" "j < length (connectors dev)"
      using j len1 len2 len3 by simp_all
    have "map unbound (connectors dev') ! j = map unbound conns ! j" using u by simp
    then have un: "unbound ?cf = unbound ?c2" using j jl(1) by simp
    have c2: "conn_display ?cf = conn_display ?c2" "conn_state ?cf = conn_state ?c2"
      "internal ?cf = internal ?c2" "external ?cf = external ?c2"
      using arg_cong [OF un, of conn_display] arg_cong [OF un, of conn_state]
        arg_cong [OF un, of internal] arg_cong [OF un, of external]
      by (simp_all only: unbound_fields)
    have r: "?c2 = ?c1\<lparr>conn_display := conn_display ?c2\<rparr>"
      "display_capable ?c1 \<longrightarrow> 0 \<le> conn_display ?c2"
      "\<not> display_capable ?c1 \<longrightarrow> ?c2 = ?c1"
      using rel jl by (simp_all add: list_all2_conv_all_nth)
    have cls: "internal ?c2 = internal ?c1" "external ?c2 = external ?c1"
      "conn_state ?c2 = conn_state ?c1"
      using r(1) by (metis class_update(1), metis class_update(2),
          metis DrmConnector.select_convs DrmConnector.surjective DrmConnector.update_convs)
    have d0: "conn_display ?c0 = - 1" using fresh jl by simp
    from sp show ?thesis
    proof
      assume h: "dev1 = dev \<and> n1 = num_displays \<and> ?pc = None"
      then have c10: "?c1 = ?c0" by simp
      show ?thesis
      proof (cases "display_capable ?c1")
        case True
        then show ?thesis using c2 cls r(2) h c10 by (auto simp: display_capable_def)
      next
        case False
        then have "?c2 = ?c1" using r(3) by simp
        then show ?thesis using False c2 cls h c10 d0 by (auto simp: display_capable_def)
      qed
    next
      assume "\<exists>i. ?pc = Some i \<and> i < length (connectors dev) \<and>
              conn_state (connectors dev ! i) = DRM_MODE_CONNECTED \<and>
              connectors dev1 =
                (connectors dev)[i := (connectors dev ! i)\<lparr>conn_display := num_displays\<rparr>] \<and>
              n1 = num_displays + 1 \<and> f1"
      then obtain i where i: "?pc = Some i" "i < length (connectors dev)"
        "conn_state (connectors dev ! i) = DRM_MODE_CONNECTED"
        "connectors dev1 =
              (connectors dev)[i := (connectors dev ! i)\<lparr>conn_display := num_displays\<rparr>]"
        and f1: f1
        by blast
      have keep: "0 \<le> conn_display ?c1 \<longrightarrow> ?c2 = ?c1"
        using assign_displays_keeps [of "connectors dev1" "displays dev1" n1 conns "(disp, counters)"]
          a f1 jl by (simp add: list_all2_conv_all_nth)
      show ?thesis
      proof (cases "j = i")
        case True
        have c1: "?c1 = ?c0\<lparr>conn_display := num_displays\<rparr>" using i(2,4) True by simp
        then have "?c2 = ?c1" using keep nd by simp
        then show ?thesis using c2 c1 i(1,3) True nd by simp
      next
        case False
        then have c10: "?c1 = ?c0" using i(4) by simp
        have ne: "?pc \<noteq> Some j" using i(1) False by simp
        show ?thesis
        proof (cases "display_capable ?c1")
          case True
          then show ?thesis using c2 cls r(2) c10 ne by (auto simp: display_capable_def)
        next
          case nc: False
          then have "?c2 = ?c1" using r(3) by simp
          then show ?thesis using nc c2 cls c10 d0 ne by (auto simp: display_capable_def)
        qed
      qed
    qed
  qed
  have "length (connectors dev') = length (connectors dev)" using len1 len2 len3 by simp
  then show ?thesis using per by blast
qed

lemma example_primary_choice:
  "primary_choice example_partition [''...''] example_device 0 = Some 1"
  by (simp add: primary_choice_def make_primary_display_candidates_def example_device_fields
      example_hdmi_facts example_edp_facts example_partition_def Let_def
      upt_rec [of 0] upt_rec [of 1] upt_rec [of 2])

theorem Init_display_ids_witness:
  "map conn_display (connectors example_device) = [- 1, - 1] \<and>
   (0 :: int) \<le> 0 \<and>
   Init example_partition [''...''] example_kernel 0 0 0 example_device 0 =
     Some (the (Init example_partition [''...''] example_kernel 0 0 0 example_device 0)) \<and>
   primary_choice example_partition [''...''] example_device 0 = Some 1 \<and>
   length (connectors (snd (the
     (Init example_partition [''...''] example_kernel 0 0 0 example_device 0)))) = 2 \<and>
   map display_capable (connectors (snd (the
     (Init example_partition [''...''] example_kernel 0 0 0 example_device 0)))) = [True, True] \<and>
   map conn_display (connectors (snd (the
     (Init example_partition [''...''] example_kernel 0 0 0 example_device 0)))) = [1, 0] \<and>
   map conn_state (connectors (snd (the
     (Init example_partition [''...''] example_kernel 0 0 0 example_device 0)))) =
     [DRM_MODE_DISCONNECTED, DRM_MODE_CONNECTED]"
proof -
  have h2: "\<forall>c \<in> set (connectors example_device). conn_display c = - 1"
    by (simp add: example_device_fields example_hdmi_facts example_edp_facts)
  have h3: "(0 :: int) \<le> 0" by simp
  have f: "map conn_display (connectors example_device) = [- 1, - 1]"
    by (simp add: example_device_fields example_hdmi_facts example_edp_facts)
  from example_Init_wildcard_order obtain d
    where d: "Init example_partition [''...''] example_kernel 0 0 0 example_device 0 =
                Some ((0, 2), d)"
      "map conn_display (connectors d) = [1, 0]"
      "map conn_state (connectors d) = [DRM_MODE_DISCONNECTED, DRM_MODE_CONNECTED]"
      "map display_capable (connectors d) = [True, True]" by auto
  have l: "length (connectors d) = 2"
    using Init_display_ids [OF example_partition_contract h2 h3 d(1), THEN conjunct1]
    by (simp add: example_device_fields)
  show ?thesis
    using f d l example_primary_choice by simp
qed

text \<open>
  C5 as worded fails on the same device with the default order (the wildcard alone):
  the connected panel becomes display 0 and the HDMI connector, which is not connected,
  display 1.
\<close>

theorem Init_connected_only_counterexample:
  "connectors example_device = [example_hdmi, example_edp] \<and>
   external example_hdmi \<and> conn_state example_hdmi = DRM_MODE_DISCONNECTED \<and>
   Init example_partition [''...''] example_kernel 0 0 0 example_device 0 \<noteq> None \<and>
   fst (the (Init example_partition [''...''] example_kernel 0 0 0 example_device 0)) = (0, 2) \<and>
   conn_display (connectors (snd (the
     (Init example_partition [''...''] example_kernel 0 0 0 example_device 0))) ! 0) = 1 \<and>
   conn_state (connectors (snd (the
     (Init example_partition [''...''] example_kernel 0 0 0 example_device 0))) ! 0) =
     DRM_MODE_DISCONNECTED"
proof -
  from example_Init_wildcard_order obtain d
    where d: "Init example_partition [''...''] example_kernel 0 0 0 example_device 0 =
                Some ((0, 2), d)"
      "map conn_display (connectors d) = [1, 0]"
      "map conn_state (connectors d) = [DRM_MODE_DISCONNECTED, DRM_MODE_CONNECTED]" by auto
  have l: "0 < length (connectors d)" using d(2) by (metis length_map length_Cons zero_less_Suc)
  have "conn_display (connectors d ! 0) = 1"
    using nth_map [OF l, of conn_display] d(2) by simp
  moreover have "conn_state (connectors d ! 0) = DRM_MODE_DISCONNECTED"
    using nth_map [OF l, of conn_state] d(3) by simp
  ultimately show ?thesis
    using d(1) by (simp add: example_device_fields example_hdmi_facts)
qed


end
